theory Spec2Isabelle
  imports Complex_Main "HOL-Library.Monad_Syntax"
begin

section \<open>Conventions of the embedding\<close>

text \<open>
  The program is \<^verbatim>\<open>src/CSC3081_Project/main.cpp\<close>. Every \<^verbatim>\<open>float\<close> of the source is
  a \<^typ>\<open>real\<close> here: the arithmetic is the exact one, rounding is left out. Every
  \<^verbatim>\<open>int\<close> is an \<^typ>\<open>int\<close> (or a \<^typ>\<open>nat\<close> where the source's value cannot be
  negative); no computation of the modelled functions comes near the 32-bit bounds.
  Global variables of the source are fields of an explicit state that the functions take
  and return.
\<close>

text \<open>The macro \<^verbatim>\<open>M_PI\<close> (line 15).\<close>

definition M_PI :: real where
  "M_PI = 3.14159265358979323846"

section \<open>Animation state and input handlers\<close>

text \<open>The \<^verbatim>\<open>Camera\<close> struct (lines 31-37); the fields carry the prefix \<open>cam_\<close>.\<close>

record Camera =
  cam_x :: real
  cam_y :: real
  cam_z :: real
  cam_lookX :: real
  cam_lookY :: real
  cam_lookZ :: real
  cam_pitch :: real
  cam_yaw :: real
  cam_zoom :: real
  cam_speed :: real

text \<open>
  The global variables that \<^verbatim>\<open>update\<close>, \<^verbatim>\<open>keyboardHandler\<close> and \<^verbatim>\<open>specialKeys\<close>
  read and write (lines 28, 37, 40-47). \<open>scene_angle\<close> is the source's \<^verbatim>\<open>_angle\<close>.
\<close>

record scene =
  scene_angle :: real
  camera :: Camera
  windSpeed :: real
  bladeRotation :: real
  nacelle_yaw :: real
  towerSway :: real
  timeAccumulator :: real
  animationEnabled :: bool
  lightingEnabled :: bool
  projectionMode :: int

text \<open>The initialisers of those globals.\<close>

definition initial_camera :: Camera where
  "initial_camera =
     \<lparr>cam_x = 50, cam_y = 30, cam_z = 80,
      cam_lookX = 0, cam_lookY = 20, cam_lookZ = 0,
      cam_pitch = -10, cam_yaw = -30, cam_zoom = 45, cam_speed = 2\<rparr>"

definition initial_scene :: scene where
  "initial_scene =
     \<lparr>scene_angle = 0, camera = initial_camera,
      windSpeed = 1, bladeRotation = 0, nacelle_yaw = 0, towerSway = 0,
      timeAccumulator = 0, animationEnabled = True, lightingEnabled = True,
      projectionMode = 0\<rparr>"

text \<open>
  \<^verbatim>\<open>update\<close> (lines 176-193), the idle callback. \<^verbatim>\<open>glutPostRedisplay\<close> changes none of
  the modelled variables.
\<close>

definition update :: "scene \<Rightarrow> scene" where
  "update s =
     (let s1 =
        (if animationEnabled s then
           (let t = timeAccumulator s + 0.016;
                b = bladeRotation s + windSpeed s * 2;
                b' = (if b \<ge> 360 then b - 360 else b)
            in s\<lparr>timeAccumulator := t,
                 bladeRotation := b',
                 nacelle_yaw := sin (t * 0.3) * 15,
                 towerSway := sin (t * 0.8) * 0.5 + cos (t * 0.6) * 0.3\<rparr>)
         else s);
          a = scene_angle s1 + 0.02
      in s1\<lparr>scene_angle := (if a \<ge> 360 then a - 360 else a)\<rparr>)"

text \<open>
  \<^verbatim>\<open>keyboardHandler\<close> (lines 292-347). The result is \<open>None\<close> when the handler ends
  the process (\<^verbatim>\<open>std::exit(0)\<close> on ESC). \<^verbatim>\<open>reshape\<close> only talks to the graphics
  library. The mouse position is unused, as in the source.
\<close>

definition keyboardHandler :: "char \<Rightarrow> int \<Rightarrow> int \<Rightarrow> scene \<Rightarrow> scene option" where
  "keyboardHandler key mx my s =
     (let c = camera s in
      if key = CHR 0x1B then None
      else if key = CHR ''w'' \<or> key = CHR ''W'' then
        (let x1 = cam_x c + (cam_lookX c - cam_x c) * 0.1;
             z1 = cam_z c + (cam_lookZ c - cam_z c) * 0.1
         in Some (s\<lparr>camera := c\<lparr>cam_x := x1, cam_z := z1\<rparr>\<rparr>))
      else if key = CHR ''s'' \<or> key = CHR ''S'' then
        (let x1 = cam_x c - (cam_lookX c - cam_x c) * 0.1;
             z1 = cam_z c - (cam_lookZ c - cam_z c) * 0.1
         in Some (s\<lparr>camera := c\<lparr>cam_x := x1, cam_z := z1\<rparr>\<rparr>))
      else if key = CHR ''a'' \<or> key = CHR ''A'' then
        Some (s\<lparr>camera := c\<lparr>cam_x := cam_x c - cam_speed c\<rparr>\<rparr>)
      else if key = CHR ''d'' \<or> key = CHR ''D'' then
        Some (s\<lparr>camera := c\<lparr>cam_x := cam_x c + cam_speed c\<rparr>\<rparr>)
      else if key = CHR ''q'' \<or> key = CHR ''Q'' then
        Some (s\<lparr>camera := c\<lparr>cam_y := cam_y c + cam_speed c\<rparr>\<rparr>)
      else if key = CHR ''e'' \<or> key = CHR ''E'' then
        Some (s\<lparr>camera := c\<lparr>cam_y := cam_y c - cam_speed c\<rparr>\<rparr>)
      else if key = CHR '' '' then
        Some (s\<lparr>animationEnabled := \<not> animationEnabled s\<rparr>)
      else if key = CHR ''l'' \<or> key = CHR ''L'' then
        Some (s\<lparr>lightingEnabled := \<not> lightingEnabled s\<rparr>)
      else if key = CHR ''p'' \<or> key = CHR ''P'' then
        Some (s\<lparr>projectionMode := (projectionMode s + 1) mod 2\<rparr>)
      else if key = CHR ''1'' then
        Some (s\<lparr>windSpeed := max 0.1 (windSpeed s - 0.2)\<rparr>)
      else if key = CHR ''2'' then
        Some (s\<lparr>windSpeed := min 5.0 (windSpeed s + 0.2)\<rparr>)
      else if key = CHR ''+'' then
        Some (s\<lparr>camera := c\<lparr>cam_zoom := max 10 (cam_zoom c - 2)\<rparr>\<rparr>)
      else if key = CHR ''-'' then
        Some (s\<lparr>camera := c\<lparr>cam_zoom := min 120 (cam_zoom c + 2)\<rparr>\<rparr>)
      else if key = CHR ''r'' \<or> key = CHR ''R'' then
        Some (s\<lparr>camera := c\<lparr>cam_x := 50, cam_y := 30, cam_z := 80,
                              cam_lookX := 0, cam_lookY := 20, cam_lookZ := 0,
                              cam_zoom := 45\<rparr>\<rparr>)
      else Some s)"

text \<open>
  \<^verbatim>\<open>specialKeys\<close> (lines 349-361), with the key codes of GLUT's header:
  \<^verbatim>\<open>GLUT_KEY_LEFT\<close> = 100, \<^verbatim>\<open>GLUT_KEY_UP\<close> = 101, \<^verbatim>\<open>GLUT_KEY_RIGHT\<close> = 102,
  \<^verbatim>\<open>GLUT_KEY_DOWN\<close> = 103.
\<close>

definition specialKeys :: "int \<Rightarrow> int \<Rightarrow> int \<Rightarrow> scene \<Rightarrow> scene" where
  "specialKeys key mx my s =
     (let c = camera s;
          c1 = (if key = 101 then c\<lparr>cam_pitch := cam_pitch c + 2\<rparr>
                else if key = 103 then c\<lparr>cam_pitch := cam_pitch c - 2\<rparr>
                else if key = 100 then c\<lparr>cam_yaw := cam_yaw c - 2\<rparr>
                else if key = 102 then c\<lparr>cam_yaw := cam_yaw c + 2\<rparr>
                else c);
          pitchRad = cam_pitch c1 * M_PI / 180.0;
          yawRad = cam_yaw c1 * M_PI / 180.0
      in s\<lparr>camera := c1\<lparr>cam_lookX := cam_x c1 + cos pitchRad * sin yawRad * 50,
                           cam_lookY := cam_y c1 + sin pitchRad * 50,
                           cam_lookZ := cam_z c1 + cos pitchRad * cos yawRad * 50\<rparr>\<rparr>)"

text \<open>
  The states the program can be in: the event loop calls the idle callback and the two
  keyboard callbacks in any order, starting from the initialisers.
\<close>

inductive reachable :: "scene \<Rightarrow> bool" where
  reach_init: "reachable initial_scene"
| reach_update: "reachable s \<Longrightarrow> reachable (update s)"
| reach_key: "reachable s \<Longrightarrow> keyboardHandler key mx my s = Some s' \<Longrightarrow> reachable s'"
| reach_special: "reachable s \<Longrightarrow> reachable (specialKeys key mx my s)"

section \<open>Terrain generation\<close>

definition TERRAIN_SIZE :: nat where
  "TERRAIN_SIZE = 50"

definition HEIGHT_SCALE :: real where
  "HEIGHT_SCALE = 3.0"

text \<open>
  \<^verbatim>\<open>std::vector::resize(n)\<close>: the first \<open>n\<close> elements stay, and value-initialised
  elements \<open>d\<close> are appended up to the length \<open>n\<close>.
\<close>

definition resize :: "nat \<Rightarrow> 'a \<Rightarrow> 'a list \<Rightarrow> 'a list" where
  "resize n d xs = take n xs @ replicate (n - length xs) d"

text \<open>The body of the inner loop of \<^verbatim>\<open>generateTerrain\<close> (lines 369-371).\<close>

definition terrain_height :: "nat \<Rightarrow> nat \<Rightarrow> real" where
  "terrain_height i j =
     (let h0 = sin (real i * 0.3) * cos (real j * 0.3) * HEIGHT_SCALE;
          h1 = h0 + sin (real i * 0.1) * sin (real j * 0.15) * HEIGHT_SCALE * 2.0;
          h2 = h1 + sin (real i * 0.05) * cos (real j * 0.08) * HEIGHT_SCALE * 0.5
      in h2)"

text \<open>
  \<^verbatim>\<open>generateTerrain\<close> (lines 364-375). The argument is the global
  \<^verbatim>\<open>terrainHeights\<close> before the call, the result is the global after it. An assignment
  \<^verbatim>\<open>terrainHeights[i][j] = h\<close> is the list update of row \<open>i\<close> at column \<open>j\<close>.
\<close>

definition generateTerrain_row :: "nat \<Rightarrow> real list list \<Rightarrow> real list list" where
  "generateTerrain_row i terrainHeights =
     fold (\<lambda>j g. g[i := (g ! i)[j := terrain_height i j]]) [0..<TERRAIN_SIZE + 1]
       (terrainHeights[i := resize (TERRAIN_SIZE + 1) 0 (terrainHeights ! i)])"

definition generateTerrain :: "real list list \<Rightarrow> real list list" where
  "generateTerrain terrainHeights =
     fold generateTerrain_row [0..<TERRAIN_SIZE + 1]
       (resize (TERRAIN_SIZE + 1) [] terrainHeights)"

text \<open>
  The C library's \<^verbatim>\<open>rand\<close> is not part of the program. The model takes the sequence
  of values that \<^verbatim>\<open>rand()\<close> returns after \<^verbatim>\<open>srand(42)\<close> as a parameter
  (\<open>rs k\<close> is the value of call number \<open>k\<close>, a number from 0 to \<^verbatim>\<open>RAND_MAX\<close>) and
  threads the number of calls made so far through the code.
\<close>

type_synonym rand_stream = "nat \<Rightarrow> nat"

definition rand :: "rand_stream \<Rightarrow> nat \<Rightarrow> nat \<times> nat" where
  "rand rs calls = (rs calls, Suc calls)"

text \<open>
  The body of the inner loop of \<^verbatim>\<open>generateMultiTextureTerrain\<close> (lines 383-389):
  the label of one cell and the number of \<^verbatim>\<open>rand\<close> calls after it. The quotient
  \<^verbatim>\<open>(rand() % 100) / 100.0f\<close> is one of 0.00, 0.01, ..., 0.99; the float division
  and the float literals are correctly rounded, so each comparison of \<^verbatim>\<open>rf\<close> with a
  literal has the value of the exact comparison written here.
\<close>

definition classify_cell :: "rand_stream \<Rightarrow> real \<Rightarrow> nat \<Rightarrow> int \<times> nat" where
  "classify_cell rs height calls =
     (let (x, calls1) = rand rs calls;
          rf = real (x mod 100) / 100.0;
          t = (if height < -2.0 then (if rf > 0.7 then 3 else 2)
               else if height < 2.0 then (if rf > 0.6 then 3 else 0)
               else if height < 5.0 then (if rf > 0.5 then 1 else 0)
               else 1)
      in if rf > 0.95
         then (let (y, calls2) = rand rs calls1 in (int (y mod 4), calls2))
         else (t, calls1))"

text \<open>
  \<^verbatim>\<open>generateMultiTextureTerrain\<close> (lines 377-392): from the height grid and the
  global \<^verbatim>\<open>terrainTextures\<close> before the call to the global after it, together with
  the number of \<^verbatim>\<open>rand\<close> calls made. \<^verbatim>\<open>srand(42)\<close> restarts the sequence, so the
  count starts at 0.
\<close>

definition generateMultiTextureTerrain_row ::
  "rand_stream \<Rightarrow> real list list \<Rightarrow> nat \<Rightarrow> int list list \<times> nat \<Rightarrow> int list list \<times> nat" where
  "generateMultiTextureTerrain_row rs terrainHeights i st =
     (case st of (terrainTextures, calls) \<Rightarrow>
        fold (\<lambda>j (g, c).
                (let (label, c') = classify_cell rs (terrainHeights ! i ! j) c
                 in (g[i := (g ! i)[j := label]], c')))
          [0..<TERRAIN_SIZE + 1]
          (terrainTextures[i := resize (TERRAIN_SIZE + 1) 0 (terrainTextures ! i)], calls))"

definition generateMultiTextureTerrain ::
  "rand_stream \<Rightarrow> real list list \<Rightarrow> int list list \<Rightarrow> int list list \<times> nat" where
  "generateMultiTextureTerrain rs terrainHeights terrainTextures =
     fold (generateMultiTextureTerrain_row rs terrainHeights) [0..<TERRAIN_SIZE + 1]
       (resize (TERRAIN_SIZE + 1) [] terrainTextures, 0)"

text \<open>
  A height grid is well formed when it has \<^verbatim>\<open>TERRAIN_SIZE + 1\<close> rows of
  \<^verbatim>\<open>TERRAIN_SIZE + 1\<close> samples, as \<^verbatim>\<open>generateTerrain\<close> leaves it: then every read
  \<^verbatim>\<open>terrainHeights[i][j]\<close> of the classifier is in range.
\<close>

definition wf_heights :: "real list list \<Rightarrow> bool" where
  "wf_heights hs \<longleftrightarrow>
     length hs = TERRAIN_SIZE + 1 \<and> list_all (\<lambda>row. length row = TERRAIN_SIZE + 1) hs"

text \<open>
  The number of \<^verbatim>\<open>rand\<close> calls made before the cell number \<open>n\<close> (cells counted in
  the order of the loops, \<open>n = i * (TERRAIN_SIZE + 1) + j\<close>).
\<close>

fun calls_before :: "rand_stream \<Rightarrow> nat \<Rightarrow> nat" where
  "calls_before rs 0 = 0"
| "calls_before rs (Suc n) =
     (let c = calls_before rs n
      in if real (rs c mod 100) / 100.0 > 0.95 then c + 2 else c + 1)"

text \<open>
  The classification rule in the words of the specification, for an elevation \<open>h\<close>, a
  draw \<open>r\<close> and the label \<open>pick\<close> that the override chooses.
\<close>

definition label_Grass :: int where "label_Grass = 0"
definition label_Rock :: int where "label_Rock = 1"
definition label_A :: int where "label_A = 2"
definition label_B :: int where "label_B = 3"

definition spec_label :: "real \<Rightarrow> real \<Rightarrow> int \<Rightarrow> int" where
  "spec_label h r pick =
     (let tier =
        (if h < -2.0 then (if r > 0.7 then label_B else label_A)
         else if h < 2.0 then (if r > 0.6 then label_B else label_Grass)
         else if h < 5.0 then (if r > 0.5 then label_Rock else label_Grass)
         else label_Rock)
      in if r > 0.95 then pick else tier)"

section \<open>Mesh generators\<close>

text \<open>
  The mesh generators call \<^verbatim>\<open>glNormal3f\<close>, \<^verbatim>\<open>glTexCoord2f\<close> and \<^verbatim>\<open>glVertex3f\<close>
  for every vertex. A \<open>vertex\<close> holds the arguments of the three calls; \<open>pos\<close> is given
  in the coordinate frame in which the generator was entered.
\<close>

type_synonym vec3 = "real \<times> real \<times> real"

record vertex =
  pos :: vec3
  nrm :: vec3
  tex :: "real \<times> real"

text \<open>
  A division whose divisor is zero is undefined behaviour in C++ (an infinity or a NaN
  on IEEE hardware). The model records it as a fault and stops there: \<open>fdiv\<close> is the
  division of the source and returns \<open>None\<close> for a zero divisor. The result of a
  generator is the list of vertices it emitted and the fault it ran into, if any.
\<close>

datatype error = DivisionByZero

definition fdiv :: "real \<Rightarrow> real \<Rightarrow> real option" where
  "fdiv x y = (if y = 0 then None else Some (x / y))"

record draw_result =
  emitted :: "vertex list"
  fault :: "error option"

definition no_draw :: draw_result where
  "no_draw = \<lparr>emitted = [], fault = None\<rparr>"

text \<open>
  \<open>emit q\<close> appends the vertices of one \<^verbatim>\<open>glBegin\<close>/\<^verbatim>\<open>glEnd\<close> block, or records
  the fault of the block. In each block of the source every division that can fail is
  evaluated before the first \<^verbatim>\<open>glVertex3f\<close> of the block, so a block that faults has
  emitted nothing.
\<close>

definition emit :: "vertex list option \<Rightarrow> draw_result \<Rightarrow> draw_result" where
  "emit q r =
     (case q of
        None \<Rightarrow> r\<lparr>fault := Some DivisionByZero\<rparr>
      | Some vs \<Rightarrow> r\<lparr>emitted := emitted r @ vs\<rparr>)"

text \<open>
  The loop \<^verbatim>\<open>for (int i = 0; i < n; ++i) body\<close>; nothing more is executed once a fault
  is recorded.
\<close>

definition for_loop :: "int \<Rightarrow> (nat \<Rightarrow> draw_result \<Rightarrow> draw_result) \<Rightarrow> draw_result \<Rightarrow> draw_result" where
  "for_loop n body r = fold (\<lambda>i r. if fault r = None then body i r else r) [0..<nat n] r"

text \<open>
  \<^verbatim>\<open>drawEllipsoid\<close> (lines 694-729). \<open>ellipsoid_vertex\<close> is the group of statements
  that the source repeats for each of the four corners (for instance lines 703-707),
  \<open>ellipsoid_quad\<close> the body of the inner loop.
\<close>

definition ellipsoid_vertex ::
  "real \<Rightarrow> real \<Rightarrow> real \<Rightarrow> real \<Rightarrow> real \<Rightarrow> real \<times> real \<Rightarrow> vertex option" where
  "ellipsoid_vertex a b c u v st = do {
     let x = a * cos u * cos v;
     let y = b * sin u;
     let z = c * cos u * sin v;
     nx \<leftarrow> fdiv x a;
     ny \<leftarrow> fdiv y b;
     nz \<leftarrow> fdiv z c;
     Some \<lparr>pos = (x, y, z), nrm = (nx, ny, nz), tex = st\<rparr>
   }"

definition ellipsoid_quad ::
  "real \<Rightarrow> real \<Rightarrow> real \<Rightarrow> int \<Rightarrow> nat \<Rightarrow> nat \<Rightarrow> vertex list option" where
  "ellipsoid_quad a b c segments i j = do {
     fi \<leftarrow> fdiv (real i) (real_of_int segments);
     fi1 \<leftarrow> fdiv (real (i + 1)) (real_of_int segments);
     fj \<leftarrow> fdiv (real j) (real_of_int segments);
     fj1 \<leftarrow> fdiv (real (j + 1)) (real_of_int segments);
     let u1 = fi * M_PI;
     let u2 = fi1 * M_PI;
     let v1 = fj * (2.0 * M_PI);
     let v2 = fj1 * (2.0 * M_PI);
     p1 \<leftarrow> ellipsoid_vertex a b c u1 v1 (fj, fi);
     p2 \<leftarrow> ellipsoid_vertex a b c u2 v1 (fj, fi1);
     p3 \<leftarrow> ellipsoid_vertex a b c u2 v2 (fj1, fi1);
     p4 \<leftarrow> ellipsoid_vertex a b c u1 v2 (fj1, fi);
     Some [p1, p2, p3, p4]
   }"

definition drawEllipsoid :: "real \<Rightarrow> real \<Rightarrow> real \<Rightarrow> int \<Rightarrow> draw_result" where
  "drawEllipsoid a b c segments =
     for_loop segments (\<lambda>i.
       for_loop segments (\<lambda>j. emit (ellipsoid_quad a b c segments i j))) no_draw"

text \<open>
  \<^verbatim>\<open>drawTorus\<close> (lines 731-783). The divisor \<^verbatim>\<open>2.0f * M_PI\<close> of the texture
  coordinates is a non-zero constant.
\<close>

definition torus_vertex :: "real \<Rightarrow> real \<Rightarrow> real \<Rightarrow> real \<Rightarrow> vertex" where
  "torus_vertex majorRadius minorRadius u v =
     \<lparr>pos = ((majorRadius + minorRadius * cos v) * cos u,
             (majorRadius + minorRadius * cos v) * sin u,
             minorRadius * sin v),
      nrm = (cos v * cos u, cos v * sin u, sin v),
      tex = (u / (2.0 * M_PI), v / (2.0 * M_PI))\<rparr>"

definition torus_quad ::
  "real \<Rightarrow> real \<Rightarrow> int \<Rightarrow> int \<Rightarrow> nat \<Rightarrow> nat \<Rightarrow> vertex list option" where
  "torus_quad majorRadius minorRadius majorSegments minorSegments i j = do {
     fi \<leftarrow> fdiv (real i) (real_of_int majorSegments);
     fi1 \<leftarrow> fdiv (real (i + 1)) (real_of_int majorSegments);
     fj \<leftarrow> fdiv (real j) (real_of_int minorSegments);
     fj1 \<leftarrow> fdiv (real (j + 1)) (real_of_int minorSegments);
     let u1 = fi * (2.0 * M_PI);
     let u2 = fi1 * (2.0 * M_PI);
     let v1 = fj * (2.0 * M_PI);
     let v2 = fj1 * (2.0 * M_PI);
     Some [torus_vertex majorRadius minorRadius u1 v1,
           torus_vertex majorRadius minorRadius u2 v1,
           torus_vertex majorRadius minorRadius u2 v2,
           torus_vertex majorRadius minorRadius u1 v2]
   }"

definition drawTorus :: "real \<Rightarrow> real \<Rightarrow> int \<Rightarrow> int \<Rightarrow> draw_result" where
  "drawTorus majorRadius minorRadius majorSegments minorSegments =
     for_loop majorSegments (\<lambda>i.
       for_loop minorSegments (\<lambda>j.
         emit (torus_quad majorRadius minorRadius majorSegments minorSegments i j))) no_draw"

section \<open>The transform stack\<close>

text \<open>
  The matrices of \<^verbatim>\<open>glTranslatef\<close> and \<^verbatim>\<open>glRotatef\<close> (OpenGL's definition: the
  angle is in degrees, the axis is normalised), as maps of points. The program passes
  the unit axes \<open>(1, 0, 0)\<close> and \<open>(0, 1, 0)\<close> only.
\<close>

definition translation :: "vec3 \<Rightarrow> vec3 \<Rightarrow> vec3" where
  "translation t p = (case t of (tx, ty, tz) \<Rightarrow> case p of (x, y, z) \<Rightarrow> (x + tx, y + ty, z + tz))"

definition rotation :: "real \<Rightarrow> vec3 \<Rightarrow> vec3 \<Rightarrow> vec3" where
  "rotation angle axis p =
     (case axis of (ax, ay, az) \<Rightarrow> case p of (x, y, z) \<Rightarrow>
        (let l = sqrt (ax * ax + ay * ay + az * az);
             ux = ax / l; uy = ay / l; uz = az / l;
             c = cos (angle * pi / 180);
             s = sin (angle * pi / 180)
         in ((ux * ux * (1 - c) + c) * x + (ux * uy * (1 - c) - uz * s) * y
               + (ux * uz * (1 - c) + uy * s) * z,
             (uy * ux * (1 - c) + uz * s) * x + (uy * uy * (1 - c) + c) * y
               + (uy * uz * (1 - c) - ux * s) * z,
             (uz * ux * (1 - c) - uy * s) * x + (uz * uy * (1 - c) + ux * s) * y
               + (uz * uz * (1 - c) + c) * z)))"

definition ycoord :: "vec3 \<Rightarrow> real" where
  "ycoord p = fst (snd p)"

text \<open>
  The part of the OpenGL state that decides where a vertex lands: the modelview matrix
  stack (top first; the map from the current local frame to the frame the stack started
  in), the positions of the vertices drawn so far in that starting frame, and the fault
  of a generator. Texture, colour and material state is left out.
\<close>

record gl_state =
  modelview :: "(vec3 \<Rightarrow> vec3) list"
  drawn :: "vec3 list"
  gl_fault :: "error option"

definition gl_init :: gl_state where
  "gl_init = \<lparr>modelview = [id], drawn = [], gl_fault = None\<rparr>"

definition glPushMatrix :: "gl_state \<Rightarrow> gl_state" where
  "glPushMatrix st =
     (case modelview st of [] \<Rightarrow> st | M # Ms \<Rightarrow> st\<lparr>modelview := M # M # Ms\<rparr>)"

text \<open>Popping the last matrix is an error of OpenGL that leaves the stack as it is.\<close>

definition glPopMatrix :: "gl_state \<Rightarrow> gl_state" where
  "glPopMatrix st =
     (case modelview st of M # M' # Ms \<Rightarrow> st\<lparr>modelview := M' # Ms\<rparr> | _ \<Rightarrow> st)"

definition glMultMatrix :: "(vec3 \<Rightarrow> vec3) \<Rightarrow> gl_state \<Rightarrow> gl_state" where
  "glMultMatrix T st =
     (case modelview st of [] \<Rightarrow> st | M # Ms \<Rightarrow> st\<lparr>modelview := (M \<circ> T) # Ms\<rparr>)"

definition glTranslatef :: "real \<Rightarrow> real \<Rightarrow> real \<Rightarrow> gl_state \<Rightarrow> gl_state" where
  "glTranslatef x y z = glMultMatrix (translation (x, y, z))"

definition glRotatef :: "real \<Rightarrow> real \<Rightarrow> real \<Rightarrow> real \<Rightarrow> gl_state \<Rightarrow> gl_state" where
  "glRotatef angle x y z = glMultMatrix (rotation angle (x, y, z))"

text \<open>Vertices given in the current local frame go through the top of the stack.\<close>

definition glVertices :: "vec3 list \<Rightarrow> gl_state \<Rightarrow> gl_state" where
  "glVertices vs st =
     (case modelview st of
        [] \<Rightarrow> st\<lparr>drawn := drawn st @ vs\<rparr>
      | M # Ms \<Rightarrow> st\<lparr>drawn := drawn st @ map M vs\<rparr>)"

text \<open>A call of a mesh generator: its vertices are drawn, its fault is kept.\<close>

definition draw_mesh :: "draw_result \<Rightarrow> gl_state \<Rightarrow> gl_state" where
  "draw_mesh r st =
     (case fault r of
        None \<Rightarrow> glVertices (map pos (emitted r)) st
      | Some e \<Rightarrow> (glVertices (map pos (emitted r)) st)\<lparr>gl_fault := Some e\<rparr>)"

text \<open>A sequence of statements; nothing more is executed once a fault is recorded.\<close>

definition seq :: "(gl_state \<Rightarrow> gl_state) list \<Rightarrow> gl_state \<Rightarrow> gl_state" where
  "seq cmds st = fold (\<lambda>cmd s. if gl_fault s = None then cmd s else s) cmds st"

text \<open>
  GLU's quadrics are not part of the program. Their documented geometry:
  \<^verbatim>\<open>gluCylinder(q, base, top, height, slices, stacks)\<close> draws a surface around the local
  z axis, its base ring (radius \<^verbatim>\<open>base\<close>) at \<open>z = 0\<close> and its top ring (radius \<^verbatim>\<open>top\<close>)
  at \<open>z = height\<close>; \<^verbatim>\<open>gluDisk(q, inner, outer, slices, loops)\<close> draws a disk in the plane
  \<open>z = 0\<close>. Both draw nothing (and report \<^verbatim>\<open>GLU_INVALID_VALUE\<close>) for fewer than 2
  slices or fewer than 1 stack or loop. The model lists the position of each vertex of
  the tessellation once.
\<close>

definition cylinder_points :: "real \<Rightarrow> real \<Rightarrow> real \<Rightarrow> int \<Rightarrow> int \<Rightarrow> vec3 list" where
  "cylinder_points baseR topR h slices stacks =
     concat (map (\<lambda>s. map (\<lambda>k.
         (let rad = baseR + (topR - baseR) * real s / real_of_int stacks;
              ang = 2 * pi * real k / real_of_int slices
          in (rad * sin ang, rad * cos ang, h * real s / real_of_int stacks)))
        [0..<nat slices + 1]) [0..<nat stacks + 1])"

definition gluCylinder :: "real \<Rightarrow> real \<Rightarrow> real \<Rightarrow> int \<Rightarrow> int \<Rightarrow> gl_state \<Rightarrow> gl_state" where
  "gluCylinder baseR topR h slices stacks st =
     (if slices < 2 \<or> stacks < 1 \<or> baseR < 0 \<or> topR < 0 \<or> h < 0 then st
      else glVertices (cylinder_points baseR topR h slices stacks) st)"

definition disk_points :: "real \<Rightarrow> real \<Rightarrow> int \<Rightarrow> int \<Rightarrow> vec3 list" where
  "disk_points inner outer slices loops =
     concat (map (\<lambda>l. map (\<lambda>k.
         (let rad = inner + (outer - inner) * real l / real_of_int loops;
              ang = 2 * pi * real k / real_of_int slices
          in (rad * sin ang, rad * cos ang, 0)))
        [0..<nat slices + 1]) [0..<nat loops + 1])"

definition gluDisk :: "real \<Rightarrow> real \<Rightarrow> int \<Rightarrow> int \<Rightarrow> gl_state \<Rightarrow> gl_state" where
  "gluDisk inner outer slices loops st =
     (if slices < 2 \<or> loops < 1 \<or> outer \<le> 0 \<or> inner < 0 \<or> inner > outer then st
      else glVertices (disk_points inner outer slices loops) st)"

text \<open>\<^verbatim>\<open>drawSolidCylinder\<close> (lines 679-692).\<close>

definition drawSolidCylinder :: "real \<Rightarrow> real \<Rightarrow> real \<Rightarrow> int \<Rightarrow> gl_state \<Rightarrow> gl_state" where
  "drawSolidCylinder baseRadius topRadius height segments =
     seq [gluCylinder baseRadius topRadius height segments 1,
          gluDisk 0.0 baseRadius segments 1,
          glPushMatrix,
          glTranslatef 0.0 0.0 height,
          gluDisk 0.0 topRadius segments 1,
          glPopMatrix]"

section \<open>The turbine\<close>

text \<open>The struct \<^verbatim>\<open>TurbineGeometry\<close> and its instance \<^verbatim>\<open>turbineParams\<close> (lines 72-85).\<close>

record TurbineGeometry =
  baseRadius :: real
  topRadius :: real
  height :: real
  segments :: int
  nacelleLength :: real
  nacelleWidth :: real
  nacelleHeight :: real
  bladeLength :: real
  hubRadius :: real
  bladeSegments :: int
  foundationRadius :: real
  foundationHeight :: real

definition turbineParams :: TurbineGeometry where
  "turbineParams =
     \<lparr>baseRadius = 3.5, topRadius = 1.8, height = 80.0, segments = 24,
      nacelleLength = 12.0, nacelleWidth = 4.0, nacelleHeight = 4.5,
      bladeLength = 45.0, hubRadius = 2.2, bladeSegments = 20,
      foundationRadius = 8.0, foundationHeight = 2.0\<rparr>"

text \<open>
  \<^verbatim>\<open>drawBlade\<close> (lines 623-677), reading the geometry \<open>p\<close>. \<open>blade_segment\<close> is the
  body of the loop: the sixteen vertices of one segment, each given in the frame of the
  blade, that is moved by the segment's \<^verbatim>\<open>glTranslatef\<close> and \<^verbatim>\<open>glRotatef\<close>. The local
  variable \<^verbatim>\<open>segments\<close> of the source is \<open>bladeSegments p\<close>.
\<close>

definition blade_segment :: "TurbineGeometry \<Rightarrow> real \<Rightarrow> nat \<Rightarrow> vertex list option" where
  "blade_segment p segLen i = do {
     t1 \<leftarrow> fdiv (real i) (real_of_int (bladeSegments p));
     t2 \<leftarrow> fdiv (real (i + 1)) (real_of_int (bladeSegments p));
     let width1 = hubRadius p * (1.0 - t1 * 0.8);
     let width2 = hubRadius p * (1.0 - t2 * 0.8);
     let thick1 = width1 * 0.15;
     let thick2 = width2 * 0.15;
     let y1 = t1 * bladeLength p;
     let y2 = t2 * bladeLength p;
     let twist1 = t1 * 25.0;
     let twist2 = t2 * 25.0;
     let place = (\<lambda>v. translation (0.0, y1, 0.0) (rotation twist1 (0.0, 1.0, 0.0) v));
     Some (map (\<lambda>(n, t, v). \<lparr>pos = place v, nrm = n, tex = t\<rparr>)
       [((0, 0, 1), (0.0, t1), (- width1, 0.0, thick1)),
        ((0, 0, 1), (1.0, t1), (width1, 0.0, thick1)),
        ((0, 0, 1), (1.0, t2), (width2, segLen, thick2)),
        ((0, 0, 1), (0.0, t2), (- width2, segLen, thick2)),
        ((0, 0, -1), (0.0, t1), (- width1, 0.0, - thick1)),
        ((0, 0, -1), (0.0, t2), (- width2, segLen, - thick2)),
        ((0, 0, -1), (1.0, t2), (width2, segLen, - thick2)),
        ((0, 0, -1), (1.0, t1), (width1, 0.0, - thick1)),
        ((1, 0, 0), (0.0, t1), (width1, 0.0, thick1)),
        ((1, 0, 0), (0.0, t1), (width1, 0.0, - thick1)),
        ((1, 0, 0), (1.0, t2), (width2, segLen, - thick2)),
        ((1, 0, 0), (1.0, t2), (width2, segLen, thick2)),
        ((-1, 0, 0), (0.0, t1), (- width1, 0.0, thick1)),
        ((-1, 0, 0), (1.0, t2), (- width2, segLen, thick2)),
        ((-1, 0, 0), (1.0, t2), (- width2, segLen, - thick2)),
        ((-1, 0, 0), (0.0, t1), (- width1, 0.0, - thick1))])
   }"

definition drawBlade :: "TurbineGeometry \<Rightarrow> real \<Rightarrow> draw_result" where
  "drawBlade p angleOffset =
     (case fdiv (bladeLength p) (real_of_int (bladeSegments p)) of
        None \<Rightarrow> \<lparr>emitted = [], fault = Some DivisionByZero\<rparr>
      | Some segLen \<Rightarrow>
          for_loop (bladeSegments p) (\<lambda>i. emit (blade_segment p segLen i)) no_draw)"

text \<open>
  \<^verbatim>\<open>drawFoundation\<close> (lines 540-558). \<open>foundation_cylinder\<close> is its first inner
  \<^verbatim>\<open>glPushMatrix\<close>/\<^verbatim>\<open>glPopMatrix\<close> block (lines 546-550), \<open>foundation_ring\<close> the
  second (lines 552-556). \<^verbatim>\<open>applyTexture\<close> changes texture and colour state only.
\<close>

definition foundation_cylinder :: "TurbineGeometry \<Rightarrow> gl_state \<Rightarrow> gl_state" where
  "foundation_cylinder p =
     seq [glPushMatrix,
          glRotatef (-90.0) 1.0 0.0 0.0,
          drawSolidCylinder (foundationRadius p) (foundationRadius p) (foundationHeight p) 32,
          glPopMatrix]"

definition foundation_ring :: "TurbineGeometry \<Rightarrow> gl_state \<Rightarrow> gl_state" where
  "foundation_ring p =
     seq [glPushMatrix,
          glTranslatef 0.0 (foundationHeight p * 0.8) 0.0,
          glRotatef (-90.0) 1.0 0.0 0.0,
          draw_mesh (drawTorus (foundationRadius p * 1.1) 0.5 24 16),
          glPopMatrix]"

definition drawFoundation :: "TurbineGeometry \<Rightarrow> gl_state \<Rightarrow> gl_state" where
  "drawFoundation p =
     seq [glPushMatrix,
          glTranslatef 0.0 (- foundationHeight p * 0.5) 0.0,
          foundation_cylinder p,
          foundation_ring p,
          glPopMatrix]"

text \<open>\<^verbatim>\<open>drawTurbineTower\<close> (lines 560-567).\<close>

definition drawTurbineTower :: "TurbineGeometry \<Rightarrow> gl_state \<Rightarrow> gl_state" where
  "drawTurbineTower p =
     seq [glPushMatrix,
          glRotatef (-90.0) 1.0 0.0 0.0,
          drawSolidCylinder (baseRadius p) (topRadius p) (height p) (segments p),
          glPopMatrix]"

text \<open>
  \<^verbatim>\<open>drawWindTurbine\<close> (lines 513-538). \<open>tower_block\<close> is its block of lines 521-524.
  The statements that draw the nacelle and the rotor inside the last block (lines 531-534)
  are the parameter \<open>nacelle_and_rotor\<close>.
\<close>

definition tower_block :: "TurbineGeometry \<Rightarrow> gl_state \<Rightarrow> gl_state" where
  "tower_block p =
     seq [glPushMatrix,
          glTranslatef 0.0 (foundationHeight p) 0.0,
          drawTurbineTower p,
          glPopMatrix]"

definition drawWindTurbine ::
  "TurbineGeometry \<Rightarrow> real \<Rightarrow> (gl_state \<Rightarrow> gl_state) \<Rightarrow> gl_state \<Rightarrow> gl_state" where
  "drawWindTurbine p yaw nacelle_and_rotor =
     seq [glPushMatrix,
          drawFoundation p,
          tower_block p,
          glPushMatrix,
          glTranslatef 0.0 (foundationHeight p + height p) 0.0,
          glRotatef yaw 0.0 1.0 0.0,
          nacelle_and_rotor,
          glPopMatrix,
          glPopMatrix]"

section \<open>Notions of the specification's geometric properties\<close>

text \<open>The Euclidean distance of two points.\<close>

definition distance :: "vec3 \<Rightarrow> vec3 \<Rightarrow> real" where
  "distance p q =
     (case p of (x, y, z) \<Rightarrow> case q of (x', y', z') \<Rightarrow>
        sqrt ((x - x')\<^sup>2 + (y - y')\<^sup>2 + (z - z')\<^sup>2))"

text \<open>
  The central ring of a torus that \<^verbatim>\<open>drawTorus\<close> draws: the circle of radius \<open>R\<close>
  around the origin in the plane \<open>z = 0\<close>, the equatorial plane of the torus in the
  frame of the generator.
\<close>

definition ring_point :: "real \<Rightarrow> real \<Rightarrow> vec3" where
  "ring_point R t = (R * cos t, R * sin t, 0)"

text \<open>A vertex of the sphere of radius \<open>r\<close>, with the normal of the ellipsoid generator.\<close>

definition sphere_vertex :: "real \<Rightarrow> vertex \<Rightarrow> bool" where
  "sphere_vertex r v \<longleftrightarrow>
     (case pos v of (x, y, z) \<Rightarrow>
        sqrt (x\<^sup>2 + y\<^sup>2 + z\<^sup>2) = r \<and> nrm v = (x / r, y / r, z / r)
        \<and> (\<exists>u w. pos v = (r * cos u * cos w, r * sin u, r * cos u * sin w)))"

text \<open>A vertex at the distance \<open>r\<close> from the central ring of radius \<open>R\<close>.\<close>

definition tube_vertex :: "real \<Rightarrow> real \<Rightarrow> vertex \<Rightarrow> bool" where
  "tube_vertex R r v \<longleftrightarrow>
     (\<exists>t. distance (pos v) (ring_point R t) = r)
     \<and> (\<forall>t. r \<le> distance (pos v) (ring_point R t))
     \<and> (case pos v of (x, y, z) \<Rightarrow> sqrt ((sqrt (x\<^sup>2 + y\<^sup>2) - R)\<^sup>2 + z\<^sup>2) = r)"

section \<open>Properties of the animation state\<close>

lemma keyboardHandler_cases:
  "(case keyboardHandler key mx my s of None \<Rightarrow> True
    | Some s' \<Rightarrow>
        bladeRotation s' = bladeRotation s \<and> nacelle_yaw s' = nacelle_yaw s
        \<and> towerSway s' = towerSway s \<and> timeAccumulator s' = timeAccumulator s
        \<and> (windSpeed s' = windSpeed s \<or> windSpeed s' = max 0.1 (windSpeed s - 0.2)
            \<or> windSpeed s' = min 5 (windSpeed s + 0.2)))"
  unfolding keyboardHandler_def Let_def by simp

lemma keyboardHandler_windSpeed:
  assumes "keyboardHandler key mx my s = Some s'"
    and "0.1 \<le> windSpeed s" and "windSpeed s \<le> 5"
  shows "0.1 \<le> windSpeed s' \<and> windSpeed s' \<le> 5"
  using keyboardHandler_cases [where key=key and mx=mx and my=my and s=s] assms
  by (auto simp: max_def min_def)

lemma keyboardHandler_animation_fields:
  assumes "keyboardHandler key mx my s = Some s'"
  shows "bladeRotation s' = bladeRotation s \<and> nacelle_yaw s' = nacelle_yaw s
    \<and> towerSway s' = towerSway s \<and> timeAccumulator s' = timeAccumulator s"
  using keyboardHandler_cases [where key=key and mx=mx and my=my and s=s] assms by simp

lemma update_disabled_fields:
  assumes "\<not> animationEnabled s"
  shows "bladeRotation (update s) = bladeRotation s \<and> nacelle_yaw (update s) = nacelle_yaw s
    \<and> towerSway (update s) = towerSway s \<and> timeAccumulator (update s) = timeAccumulator s
    \<and> \<not> animationEnabled (update s)"
  using assms unfolding update_def Let_def by simp

lemma update_iter_disabled:
  assumes "\<not> animationEnabled s"
  shows "bladeRotation ((update ^^ n) s) = bladeRotation s
    \<and> nacelle_yaw ((update ^^ n) s) = nacelle_yaw s
    \<and> towerSway ((update ^^ n) s) = towerSway s
    \<and> timeAccumulator ((update ^^ n) s) = timeAccumulator s
    \<and> \<not> animationEnabled ((update ^^ n) s)"
proof (induction n)
  case 0
  show ?case using assms by simp
next
  case (Suc n)
  then show ?case using update_disabled_fields [of "(update ^^ n) s"] by simp
qed

lemma towerSway_bound: "\<bar>sin a * 0.5 + cos b * 0.3\<bar> \<le> (0.8::real)"
proof -
  have "- 1 \<le> sin a" "sin a \<le> 1" "- 1 \<le> cos b" "cos b \<le> 1" by simp_all
  then show ?thesis unfolding abs_le_iff by linarith
qed

lemma nacelle_yaw_bound: "\<bar>sin a * 15\<bar> \<le> (15::real)"
proof -
  have "- 1 \<le> sin a" "sin a \<le> 1" by simp_all
  then show ?thesis unfolding abs_le_iff by linarith
qed

lemma update_enabled_values:
  assumes "animationEnabled s"
  shows "timeAccumulator (update s) = timeAccumulator s + 0.016
    \<and> nacelle_yaw (update s) = 15.0 * sin (0.3 * timeAccumulator (update s))
    \<and> towerSway (update s) = 0.5 * sin (0.8 * timeAccumulator (update s))
          + 0.3 * cos (0.6 * timeAccumulator (update s))"
  using assms unfolding update_def Let_def by (simp add: mult.commute)

lemma update_bounds:
  assumes "\<bar>nacelle_yaw s\<bar> \<le> 15" and "\<bar>towerSway s\<bar> \<le> 0.8"
  shows "\<bar>nacelle_yaw (update s)\<bar> \<le> 15 \<and> \<bar>towerSway (update s)\<bar> \<le> 0.8"
proof (cases "animationEnabled s")
  case True
  then show ?thesis
    unfolding update_def Let_def using towerSway_bound nacelle_yaw_bound by simp
next
  case False
  then show ?thesis using update_disabled_fields [of s] assms by simp
qed

lemma specialKeys_animation_fields:
  "bladeRotation (specialKeys key mx my s) = bladeRotation s
    \<and> nacelle_yaw (specialKeys key mx my s) = nacelle_yaw s
    \<and> towerSway (specialKeys key mx my s) = towerSway s
    \<and> timeAccumulator (specialKeys key mx my s) = timeAccumulator s
    \<and> windSpeed (specialKeys key mx my s) = windSpeed s"
  unfolding specialKeys_def Let_def by simp


lemma reachable_bounds:
  "reachable s \<Longrightarrow> \<bar>nacelle_yaw s\<bar> \<le> 15 \<and> \<bar>towerSway s\<bar> \<le> 0.8"
proof (induction rule: reachable.induct)
  case reach_init
  show ?case by (simp add: initial_scene_def)
next
  case (reach_update s)
  then show ?case using update_bounds by blast
next
  case (reach_key s key mx my s')
  then show ?case using keyboardHandler_animation_fields [of key mx my s s'] by simp
next
  case (reach_special s key mx my)
  then show ?case using specialKeys_animation_fields [of key mx my s] by simp
qed

lemma update_bladeRotation_range:
  assumes "0 \<le> bladeRotation s" and "bladeRotation s < 360"
    and "0.1 \<le> windSpeed s" and "windSpeed s \<le> 5"
  shows "0 \<le> bladeRotation (update s) \<and> bladeRotation (update s) < 360"
  using assms unfolding update_def Let_def by auto

text \<open>
  Claim C4. From a state with \<open>bladeRotation\<close> in [0, 360) and \<open>windSpeed\<close> in
  [0.1, 5.0], one call of \<^verbatim>\<open>update\<close> with the animation enabled leaves
  \<open>bladeRotation\<close> in [0, 360): the increment \<open>windSpeed * 2.0\<close> and one conditional
  subtraction of 360 are enough. From 359 degrees with \<open>windSpeed = 1.0\<close> the increment
  gives 361 and the result is 1. The keyboard handler keeps \<open>windSpeed\<close> within
  [0.1, 5.0] for every key.
\<close>

theorem blade_rotation_stays_in_range:
  "(\<forall>s. animationEnabled s \<and> 0 \<le> bladeRotation s \<and> bladeRotation s < 360
         \<and> 0.1 \<le> windSpeed s \<and> windSpeed s \<le> 5.0
       \<longrightarrow> 0 \<le> bladeRotation (update s) \<and> bladeRotation (update s) < 360)
   \<and> (\<forall>s. animationEnabled s \<and> bladeRotation s = 359 \<and> windSpeed s = 1.0
       \<longrightarrow> bladeRotation s + windSpeed s * 2.0 = 361 \<and> bladeRotation (update s) = 1.0)
   \<and> (\<forall>key mx my s s'. 0.1 \<le> windSpeed s \<and> windSpeed s \<le> 5.0
         \<and> keyboardHandler key mx my s = Some s'
       \<longrightarrow> 0.1 \<le> windSpeed s' \<and> windSpeed s' \<le> 5.0)"
proof (intro conjI allI impI)
  fix s :: scene
  assume "animationEnabled s \<and> 0 \<le> bladeRotation s \<and> bladeRotation s < 360
         \<and> 0.1 \<le> windSpeed s \<and> windSpeed s \<le> 5.0"
  then have r: "0 \<le> bladeRotation (update s) \<and> bladeRotation (update s) < 360"
    using update_bladeRotation_range [of s] by simp
  from r show "0 \<le> bladeRotation (update s)" ..
  from r show "bladeRotation (update s) < 360" ..
next
  fix s :: scene
  assume a: "animationEnabled s \<and> bladeRotation s = 359 \<and> windSpeed s = 1.0"
  then show "bladeRotation s + windSpeed s * 2.0 = 361" by simp
  from a show "bladeRotation (update s) = 1.0" by (simp add: update_def Let_def)
next
  fix key mx my and s s' :: scene
  assume "0.1 \<le> windSpeed s \<and> windSpeed s \<le> 5.0 \<and> keyboardHandler key mx my s = Some s'"
  then have r: "0.1 \<le> windSpeed s' \<and> windSpeed s' \<le> 5"
    using keyboardHandler_windSpeed [of key mx my s s'] by simp
  from r show "0.1 \<le> windSpeed s'" ..
  from r show "windSpeed s' \<le> 5.0" by simp
qed

theorem blade_rotation_stays_in_range_witness:
  "animationEnabled (initial_scene\<lparr>bladeRotation := 359\<rparr>)
   \<and> windSpeed (initial_scene\<lparr>bladeRotation := 359\<rparr>) = 1
   \<and> bladeRotation (update (initial_scene\<lparr>bladeRotation := 359\<rparr>)) = 1
   \<and> 0 \<le> bladeRotation (update (initial_scene\<lparr>bladeRotation := 359\<rparr>))
   \<and> bladeRotation (update (initial_scene\<lparr>bladeRotation := 359\<rparr>)) < 360
   \<and> keyboardHandler (CHR ''2'') 0 0 (initial_scene\<lparr>windSpeed := 4.9\<rparr>)
       = Some (initial_scene\<lparr>windSpeed := 5\<rparr>)
   \<and> windSpeed (initial_scene\<lparr>windSpeed := 5\<rparr>) \<le> 5"
proof -
  let ?s = "initial_scene\<lparr>bladeRotation := 359\<rparr>"
  let ?k = "initial_scene\<lparr>windSpeed := 4.9\<rparr>"
  have pre: "animationEnabled ?s \<and> 0 \<le> bladeRotation ?s \<and> bladeRotation ?s < 360
         \<and> 0.1 \<le> windSpeed ?s \<and> windSpeed ?s \<le> 5.0"
    and pre2: "animationEnabled ?s \<and> bladeRotation ?s = 359 \<and> windSpeed ?s = 1.0"
    by (simp_all add: initial_scene_def)
  have key: "keyboardHandler (CHR ''2'') 0 0 ?k = Some (initial_scene\<lparr>windSpeed := 5\<rparr>)"
    by (simp add: keyboardHandler_def initial_scene_def)
  have pre3: "0.1 \<le> windSpeed ?k \<and> windSpeed ?k \<le> 5.0
      \<and> keyboardHandler (CHR ''2'') 0 0 ?k = Some (initial_scene\<lparr>windSpeed := 5\<rparr>)"
    using key by (simp add: initial_scene_def)
  from blade_rotation_stays_in_range pre
  have c1: "0 \<le> bladeRotation (update ?s) \<and> bladeRotation (update ?s) < 360" by blast
  from blade_rotation_stays_in_range pre2
  have c2: "bladeRotation (update ?s) = 1.0" by blast
  from blade_rotation_stays_in_range pre3
  have c3: "windSpeed (initial_scene\<lparr>windSpeed := 5\<rparr>) \<le> 5.0" by blast
  show ?thesis using pre2 c1 c2 c3 key by simp
qed

text \<open>
  Claim C5. When the animation is disabled, any number \<open>n\<close> of consecutive calls of
  \<^verbatim>\<open>update\<close> leaves \<open>bladeRotation\<close>, \<open>nacelle_yaw\<close>, \<open>towerSway\<close> and the
  accumulated time at the values they had.
\<close>

theorem disabled_animation_freezes:
  assumes "\<not> animationEnabled s"
  shows "bladeRotation ((update ^^ n) s) = bladeRotation s
    \<and> nacelle_yaw ((update ^^ n) s) = nacelle_yaw s
    \<and> towerSway ((update ^^ n) s) = towerSway s
    \<and> timeAccumulator ((update ^^ n) s) = timeAccumulator s"
  using update_iter_disabled [OF assms, of n] by simp

theorem disabled_animation_freezes_witness:
  "\<not> animationEnabled (initial_scene\<lparr>bladeRotation := 42, animationEnabled := False\<rparr>)
   \<and> bladeRotation
        ((update ^^ 3) (initial_scene\<lparr>bladeRotation := 42, animationEnabled := False\<rparr>)) = 42
   \<and> timeAccumulator
        ((update ^^ 3) (initial_scene\<lparr>bladeRotation := 42, animationEnabled := False\<rparr>)) = 0"
proof -
  let ?s = "initial_scene\<lparr>bladeRotation := 42, animationEnabled := False\<rparr>"
  have pre: "\<not> animationEnabled ?s" by simp
  show ?thesis
    using disabled_animation_freezes [OF pre, of 3] pre by (simp add: initial_scene_def)
qed

text \<open>
  Claim C7. After a call of \<^verbatim>\<open>update\<close> with the animation enabled,
  \<open>nacelle_yaw = 15.0 * sin (0.3 * t)\<close> and
  \<open>towerSway = 0.5 * sin (0.8 * t) + 0.3 * cos (0.6 * t)\<close> for the accumulated time
  \<open>t\<close>, so \<open>\<bar>nacelle_yaw\<bar> \<le> 15.0\<close> and \<open>\<bar>towerSway\<bar> \<le> 0.8\<close>; both bounds hold in
  every reachable state.
\<close>

theorem yaw_and_sway_bounded:
  "(\<forall>s. animationEnabled s \<longrightarrow>
        nacelle_yaw (update s) = 15.0 * sin (0.3 * timeAccumulator (update s))
        \<and> towerSway (update s) = 0.5 * sin (0.8 * timeAccumulator (update s))
                                  + 0.3 * cos (0.6 * timeAccumulator (update s))
        \<and> \<bar>nacelle_yaw (update s)\<bar> \<le> 15.0 \<and> \<bar>towerSway (update s)\<bar> \<le> 0.8)
   \<and> (\<forall>s. reachable s \<longrightarrow> \<bar>nacelle_yaw s\<bar> \<le> 15.0 \<and> \<bar>towerSway s\<bar> \<le> 0.8)"
proof (intro conjI allI impI)
  fix s :: scene
  assume en: "animationEnabled s"
  have v: "nacelle_yaw (update s) = 15.0 * sin (0.3 * timeAccumulator (update s))
    \<and> towerSway (update s) = 0.5 * sin (0.8 * timeAccumulator (update s))
          + 0.3 * cos (0.6 * timeAccumulator (update s))"
    using update_enabled_values [OF en] by simp
  from v show "nacelle_yaw (update s) = 15.0 * sin (0.3 * timeAccumulator (update s))" ..
  from v show "towerSway (update s) = 0.5 * sin (0.8 * timeAccumulator (update s))
          + 0.3 * cos (0.6 * timeAccumulator (update s))" ..
  have "\<bar>sin (0.3 * timeAccumulator (update s)) * 15\<bar> \<le> 15"
    by (rule nacelle_yaw_bound)
  with v show "\<bar>nacelle_yaw (update s)\<bar> \<le> 15.0" by (simp add: mult.commute)
  have "\<bar>sin (0.8 * timeAccumulator (update s)) * 0.5
        + cos (0.6 * timeAccumulator (update s)) * 0.3\<bar> \<le> 0.8"
    by (rule towerSway_bound)
  with v show "\<bar>towerSway (update s)\<bar> \<le> 0.8" by (simp add: mult.commute)
next
  fix s :: scene
  assume r: "reachable s"
  from reachable_bounds [OF r] show "\<bar>nacelle_yaw s\<bar> \<le> 15.0" by simp
  from reachable_bounds [OF r] show "\<bar>towerSway s\<bar> \<le> 0.8" by simp
qed

theorem yaw_and_sway_bounded_witness:
  "animationEnabled initial_scene \<and> reachable (update initial_scene)
   \<and> nacelle_yaw (update initial_scene) = 15.0 * sin (0.3 * 0.016)
   \<and> \<bar>nacelle_yaw (update initial_scene)\<bar> \<le> 15.0
   \<and> \<bar>towerSway (update initial_scene)\<bar> \<le> 0.8"
proof -
  have en: "animationEnabled initial_scene" by (simp add: initial_scene_def)
  have re: "reachable (update initial_scene)" by (intro reach_update reach_init)
  have t: "timeAccumulator (update initial_scene) = 0.016"
    by (simp add: update_def initial_scene_def Let_def)
  from yaw_and_sway_bounded en
  have c1: "nacelle_yaw (update initial_scene)
        = 15.0 * sin (0.3 * timeAccumulator (update initial_scene))" by blast
  from yaw_and_sway_bounded re
  have c2: "\<bar>nacelle_yaw (update initial_scene)\<bar> \<le> 15.0
        \<and> \<bar>towerSway (update initial_scene)\<bar> \<le> 0.8" by blast
  show ?thesis using en re c1 c2 unfolding t by simp
qed

section \<open>Properties of the terrain generators\<close>

lemma resize_length: "length (resize n d xs) = n"
  by (simp add: resize_def)

lemma fold_fill_row:
  "i < length g \<Longrightarrow> n \<le> length (g ! i) \<Longrightarrow>
   fold (\<lambda>j g. g[i := (g ! i)[j := f j]]) [0..<n] g = g[i := map f [0..<n] @ drop n (g ! i)]"
proof (induction n)
  case 0
  then show ?case by simp
next
  case (Suc n)
  then have n: "n < length (g ! i)" by simp
  have "(map f [0..<n] @ drop n (g ! i))[n := f n] = map f [0..<n] @ (drop n (g ! i))[0 := f n]"
    by (simp add: list_update_append)
  also have "(drop n (g ! i))[0 := f n] = f n # drop (Suc n) (g ! i)"
    using n by (simp add: Cons_nth_drop_Suc [symmetric])
  finally show ?case using Suc by simp
qed

lemma generateTerrain_row_eq:
  assumes "i < length g"
  shows "generateTerrain_row i g = g[i := map (terrain_height i) [0..<TERRAIN_SIZE + 1]]"
proof -
  let ?g1 = "g[i := resize (TERRAIN_SIZE + 1) 0 (g ! i)]"
  have "fold (\<lambda>j g. g[i := (g ! i)[j := terrain_height i j]]) [0..<TERRAIN_SIZE + 1] ?g1
        = ?g1[i := map (terrain_height i) [0..<TERRAIN_SIZE + 1] @ drop (TERRAIN_SIZE + 1) (?g1 ! i)]"
    using assms by (intro fold_fill_row) (simp_all add: resize_length)
  then show ?thesis using assms by (simp add: generateTerrain_row_def resize_length)
qed

lemma fold_rows:
  assumes step: "\<And>i g. i < length g \<Longrightarrow> row i g = g[i := f i]"
  shows "n \<le> length g \<Longrightarrow> fold row [0..<n] g = map f [0..<n] @ drop n g"
proof (induction n)
  case 0
  then show ?case by simp
next
  case (Suc n)
  then have n: "n < length g" by simp
  have "(map f [0..<n] @ drop n g)[n := f n] = map f [0..<n] @ (drop n g)[0 := f n]"
    by (simp add: list_update_append)
  also have "(drop n g)[0 := f n] = f n # drop (Suc n) g"
    using n by (simp add: Cons_nth_drop_Suc [symmetric])
  finally show ?case using Suc n by (simp add: step)
qed

lemma generateTerrain_eq:
  "generateTerrain old =
     map (\<lambda>i. map (terrain_height i) [0..<TERRAIN_SIZE + 1]) [0..<TERRAIN_SIZE + 1]"
proof -
  have "fold generateTerrain_row [0..<TERRAIN_SIZE + 1] (resize (TERRAIN_SIZE + 1) [] old)
      = map (\<lambda>i. map (terrain_height i) [0..<TERRAIN_SIZE + 1]) [0..<TERRAIN_SIZE + 1]
        @ drop (TERRAIN_SIZE + 1) (resize (TERRAIN_SIZE + 1) [] old)"
    by (rule fold_rows) (simp_all add: generateTerrain_row_eq resize_length)
  then show ?thesis by (simp add: generateTerrain_def resize_length)
qed


declare calls_before.simps(2) [simp del]

lemma classify_cell_calls:
  "snd (classify_cell rs h c) = (if real (rs c mod 100) / 100 > 0.95 then c + 2 else c + 1)"
  by (simp add: classify_cell_def rand_def Let_def)

lemma classify_cell_label:
  "fst (classify_cell rs h c) = spec_label h (real (rs c mod 100) / 100) (int (rs (Suc c) mod 4))"
  by (simp add: classify_cell_def rand_def Let_def spec_label_def
      label_Grass_def label_Rock_def label_A_def label_B_def)

lemma calls_before_Suc:
  "calls_before rs (Suc n) = snd (classify_cell rs h (calls_before rs n))"
  by (simp add: classify_cell_calls calls_before.simps(2) Let_def)

lemma fold_classify_row:
  "i < length g \<Longrightarrow> n \<le> length (g ! i) \<Longrightarrow>
   fold (\<lambda>j (g, c). (let (label, c') = classify_cell rs (hf j) c
                       in (g[i := (g ! i)[j := label]], c')))
     [0..<n] (g, calls_before rs m)
   = (g[i := map (\<lambda>j. fst (classify_cell rs (hf j) (calls_before rs (m + j)))) [0..<n]
              @ drop n (g ! i)],
      calls_before rs (m + n))"
proof (induction n)
  case 0
  then show ?case by simp
next
  case (Suc n)
  then have n: "n < length (g ! i)" by simp
  let ?f = "\<lambda>j. fst (classify_cell rs (hf j) (calls_before rs (m + j)))"
  have "(map ?f [0..<n] @ drop n (g ! i))[n := ?f n] = map ?f [0..<n] @ (drop n (g ! i))[0 := ?f n]"
    by (simp add: list_update_append)
  also have "(drop n (g ! i))[0 := ?f n] = ?f n # drop (Suc n) (g ! i)"
    using n by (simp add: Cons_nth_drop_Suc [symmetric])
  finally have upd: "(map ?f [0..<n] @ drop n (g ! i))[n := ?f n]
      = map ?f [0..<Suc n] @ drop (Suc n) (g ! i)" by simp
  have cur: "snd (classify_cell rs (hf n) (calls_before rs (m + n))) = calls_before rs (m + Suc n)"
    using calls_before_Suc [of rs "m + n" "hf n"] by simp
  show ?case
    using Suc upd cur by (simp add: case_prod_beta Let_def)
qed

lemma generateMultiTextureTerrain_row_eq:
  assumes "i < length g"
  shows "generateMultiTextureTerrain_row rs hs i (g, calls_before rs (i * (TERRAIN_SIZE + 1)))
    = (g[i := map (\<lambda>j. fst (classify_cell rs (hs ! i ! j)
                               (calls_before rs (i * (TERRAIN_SIZE + 1) + j))))
               [0..<TERRAIN_SIZE + 1]],
       calls_before rs (Suc i * (TERRAIN_SIZE + 1)))"
proof -
  define N where "N = TERRAIN_SIZE + 1"
  let ?g1 = "g[i := resize N 0 (g ! i)]"
  let ?f = "\<lambda>j. fst (classify_cell rs (hs ! i ! j) (calls_before rs (i * N + j)))"
  have step: "fold (\<lambda>j (g, c). (let (label, c') = classify_cell rs (hs ! i ! j) c
                       in (g[i := (g ! i)[j := label]], c')))
     [0..<N] (?g1, calls_before rs (i * N))
   = (?g1[i := map ?f [0..<N] @ drop N (?g1 ! i)], calls_before rs (i * N + N))"
    using assms by (intro fold_classify_row) (simp_all add: resize_def)
  have a: "i * N + N = Suc i * N" by simp
  have b: "drop N (?g1 ! i) = []" using assms by (simp add: resize_def)
  show ?thesis
    unfolding generateMultiTextureTerrain_row_def N_def [symmetric]
    by (simp only: prod.case step a b append_Nil2 list_update_overwrite)
qed

lemma fold_classify_rows:
  "n \<le> length g \<Longrightarrow>
   fold (generateMultiTextureTerrain_row rs hs) [0..<n] (g, 0)
   = (map (\<lambda>i. map (\<lambda>j. fst (classify_cell rs (hs ! i ! j)
                               (calls_before rs (i * (TERRAIN_SIZE + 1) + j))))
               [0..<TERRAIN_SIZE + 1]) [0..<n] @ drop n g,
      calls_before rs (n * (TERRAIN_SIZE + 1)))"
proof (induction n)
  case 0
  then show ?case by simp
next
  case (Suc n)
  then have n: "n < length g" by simp
  let ?f = "\<lambda>i. map (\<lambda>j. fst (classify_cell rs (hs ! i ! j)
                               (calls_before rs (i * (TERRAIN_SIZE + 1) + j))))
               [0..<TERRAIN_SIZE + 1]"
  have "(map ?f [0..<n] @ drop n g)[n := ?f n] = map ?f [0..<n] @ (drop n g)[0 := ?f n]"
    by (simp add: list_update_append)
  also have "(drop n g)[0 := ?f n] = ?f n # drop (Suc n) g"
    using n by (simp add: Cons_nth_drop_Suc [symmetric])
  finally have upd: "(map ?f [0..<n] @ drop n g)[n := ?f n] = map ?f [0..<Suc n] @ drop (Suc n) g"
    by simp
  have len: "n < length (map ?f [0..<n] @ drop n g)" using n by simp
  have "fold (generateMultiTextureTerrain_row rs hs) [0..<Suc n] (g, 0)
      = generateMultiTextureTerrain_row rs hs n
          (fold (generateMultiTextureTerrain_row rs hs) [0..<n] (g, 0))"
    by simp
  also have "\<dots> = generateMultiTextureTerrain_row rs hs n
      (map ?f [0..<n] @ drop n g, calls_before rs (n * (TERRAIN_SIZE + 1)))"
    using Suc by simp
  also have "\<dots> = ((map ?f [0..<n] @ drop n g)[n := ?f n],
      calls_before rs (Suc n * (TERRAIN_SIZE + 1)))"
    by (rule generateMultiTextureTerrain_row_eq [OF len])
  finally show ?case unfolding upd .
qed

lemma generateMultiTextureTerrain_eq:
  "generateMultiTextureTerrain rs hs old
   = (map (\<lambda>i. map (\<lambda>j. fst (classify_cell rs (hs ! i ! j)
                               (calls_before rs (i * (TERRAIN_SIZE + 1) + j))))
               [0..<TERRAIN_SIZE + 1]) [0..<TERRAIN_SIZE + 1],
      calls_before rs ((TERRAIN_SIZE + 1) * (TERRAIN_SIZE + 1)))"
  using fold_classify_rows [of "TERRAIN_SIZE + 1" "resize (TERRAIN_SIZE + 1) [] old" rs hs]
  by (simp add: generateMultiTextureTerrain_def resize_def)

lemma calls_before_count:
  "calls_before rs n = n + card {m. m < n \<and> real (rs (calls_before rs m) mod 100) / 100 > 0.95}"
proof (induction n)
  case 0
  show ?case by simp
next
  case (Suc n)
  let ?P = "\<lambda>m. real (rs (calls_before rs m) mod 100) / 100 > 0.95"
  have split: "{m. m < Suc n \<and> ?P m} = {m. m < n \<and> ?P m} \<union> (if ?P n then {n} else {})"
    by (auto simp: less_Suc_eq)
  have fin: "finite {m. m < n \<and> ?P m}" by simp
  have "card {m. m < Suc n \<and> ?P m} = card {m. m < n \<and> ?P m} + (if ?P n then 1 else 0)"
    unfolding split using fin by (simp add: card_insert_if)
  then show ?case using Suc by (simp add: calls_before.simps(2) Let_def)
qed

lemma generateMultiTextureTerrain_cell:
  assumes "i \<le> TERRAIN_SIZE" and "j \<le> TERRAIN_SIZE"
  shows "fst (generateMultiTextureTerrain rs hs old) ! i ! j
    = fst (classify_cell rs (hs ! i ! j) (calls_before rs (i * (TERRAIN_SIZE + 1) + j)))"
  using assms unfolding generateMultiTextureTerrain_eq by (simp del: upt_Suc)

text \<open>
  Claim C1. For every cell \<open>(i, j)\<close> of the grid, with \<open>h\<close> the elevation of the cell
  and \<open>r\<close> the draw of the cell (a value in [0, 1)), the label that
  \<^verbatim>\<open>generateMultiTextureTerrain\<close> stores is the one of the rule of the specification:
  B or A below -2.0 (B when \<open>r > 0.7\<close>), B or Grass below 2.0 (B when \<open>r > 0.6\<close>),
  Rock or Grass below 5.0 (Rock when \<open>r > 0.5\<close>), Rock otherwise; and the label is
  replaced by a pick among the four labels exactly when that same \<open>r\<close> exceeds 0.95.
\<close>

theorem terrain_classifier_rule:
  assumes "wf_heights hs" and "i \<le> TERRAIN_SIZE" and "j \<le> TERRAIN_SIZE"
  shows "let c = calls_before rs (i * (TERRAIN_SIZE + 1) + j);
             r = real (rs c mod 100) / 100;
             pick = int (rs (Suc c) mod 4)
         in 0 \<le> r \<and> r < 1 \<and> 0 \<le> pick \<and> pick < 4
            \<and> fst (generateMultiTextureTerrain rs hs old) ! i ! j = spec_label (hs ! i ! j) r pick"
proof -
  have "real (rs c mod 100) / 100 < 1" for c
  proof -
    have "rs c mod 100 < 100" by simp
    then have "real (rs c mod 100) < 100" by linarith
    then show ?thesis by simp
  qed
  then show ?thesis
    using generateMultiTextureTerrain_cell [OF assms(2,3), of rs hs old]
    by (simp add: Let_def classify_cell_label)
qed

theorem terrain_classifier_rule_witness:
  "wf_heights (replicate 51 (replicate 51 0))
   \<and> calls_before (\<lambda>n. if n = 0 then 96 else 63 + n) 1 = 2
   \<and> fst (generateMultiTextureTerrain (\<lambda>n. if n = 0 then 96 else 63 + n)
            (replicate 51 (replicate 51 0)) []) ! 0 ! 1 = 3"
proof -
  let ?rs = "\<lambda>n::nat. if n = 0 then 96 else 63 + n"
  let ?hs = "replicate 51 (replicate 51 (0::real))"
  have wf: "wf_heights ?hs" by (simp add: wf_heights_def TERRAIN_SIZE_def list_all_iff)
  have i: "(0::nat) \<le> TERRAIN_SIZE" and j: "(1::nat) \<le> TERRAIN_SIZE"
    by (simp_all add: TERRAIN_SIZE_def)
  have c: "calls_before ?rs 1 = 2" by (simp add: calls_before.simps(2))
  show ?thesis
    using terrain_classifier_rule [OF wf i j, of ?rs "[]"] wf c
    by (simp add: Let_def spec_label_def label_B_def label_Grass_def)
qed

text \<open>
  Claim C6. For every cell \<open>(i, j)\<close> with \<open>i, j \<le> 50\<close>, the height that
  \<^verbatim>\<open>generateTerrain\<close> stores is the sum of the three sinusoidal terms with the scale
  3.0. The grid has 51 rows of 51 samples and does not depend on anything but the
  constants: two runs give the same grid, whatever the vector held before.
\<close>

theorem generateTerrain_heights:
  assumes "i \<le> 50" and "j \<le> 50"
  shows "generateTerrain old ! i ! j
         = sin (real i * 0.3) * cos (real j * 0.3) * 3.0
           + sin (real i * 0.1) * sin (real j * 0.15) * 2 * 3.0
           + sin (real i * 0.05) * cos (real j * 0.08) * 0.5 * 3.0
       \<and> length (generateTerrain old) = 51
       \<and> length (generateTerrain old ! i) = 51
       \<and> generateTerrain old = generateTerrain old'"
  using assms unfolding generateTerrain_eq
  by (simp add: TERRAIN_SIZE_def terrain_height_def HEIGHT_SCALE_def Let_def del: upt_Suc)

theorem generateTerrain_heights_witness:
  "(0::nat) \<le> 50 \<and> generateTerrain [] ! 0 ! 0 = 0 \<and> length (generateTerrain []) = 51"
  using generateTerrain_heights [of 0 0 "[]" "[]"] by simp

text \<open>
  Claim C10. When the override fires for a cell (\<open>r > 0.95\<close>), its label is the next
  value of the random sequence modulo 4, a draw of its own: such a cell consumes two
  values of the sequence and every other cell one. So the draw of the cell number \<open>n\<close>
  is the value number \<open>n\<close> plus the number of earlier cells whose override fired.
\<close>

theorem override_consumes_second_draw:
  assumes "wf_heights hs" and "i \<le> TERRAIN_SIZE" and "j \<le> TERRAIN_SIZE"
  shows "let n = i * (TERRAIN_SIZE + 1) + j;
             c = calls_before rs n;
             r = real (rs c mod 100) / 100
         in (r > 0.95 \<longrightarrow>
               fst (generateMultiTextureTerrain rs hs old) ! i ! j = int (rs (c + 1) mod 4)
               \<and> calls_before rs (Suc n) = c + 2)
            \<and> (\<not> r > 0.95 \<longrightarrow> calls_before rs (Suc n) = c + 1)
            \<and> snd (classify_cell rs (hs ! i ! j) c) = calls_before rs (Suc n)
            \<and> c = n + card {m. m < n \<and> real (rs (calls_before rs m) mod 100) / 100 > 0.95}
            \<and> snd (generateMultiTextureTerrain rs hs old)
                = calls_before rs ((TERRAIN_SIZE + 1) * (TERRAIN_SIZE + 1))"
proof -
  let ?n = "i * (TERRAIN_SIZE + 1) + j"
  let ?c = "calls_before rs ?n"
  let ?r = "real (rs ?c mod 100) / 100"
  have lbl: "fst (generateMultiTextureTerrain rs hs old) ! i ! j
      = spec_label (hs ! i ! j) ?r (int (rs (Suc ?c) mod 4))"
    using generateMultiTextureTerrain_cell [OF assms(2,3), of rs hs old]
    by (simp only: classify_cell_label)
  have A: "?r > 0.95 \<longrightarrow>
      fst (generateMultiTextureTerrain rs hs old) ! i ! j = int (rs (?c + 1) mod 4)
      \<and> calls_before rs (Suc ?n) = ?c + 2"
    unfolding lbl by (simp add: spec_label_def calls_before.simps(2) Let_def)
  have B: "\<not> ?r > 0.95 \<longrightarrow> calls_before rs (Suc ?n) = ?c + 1"
    by (simp add: calls_before.simps(2) Let_def)
  have C: "snd (classify_cell rs (hs ! i ! j) ?c) = calls_before rs (Suc ?n)"
    by (rule calls_before_Suc [symmetric])
  have D: "?c = ?n + card {m. m < ?n \<and> real (rs (calls_before rs m) mod 100) / 100 > 0.95}"
    by (rule calls_before_count)
  have E: "snd (generateMultiTextureTerrain rs hs old)
      = calls_before rs ((TERRAIN_SIZE + 1) * (TERRAIN_SIZE + 1))"
    unfolding generateMultiTextureTerrain_eq by (rule snd_conv)
  show ?thesis
    unfolding Let_def using A B C D E by (intro conjI)
qed

theorem override_consumes_second_draw_witness:
  "wf_heights (replicate 51 (replicate 51 0))
   \<and> fst (generateMultiTextureTerrain (\<lambda>n. 96 + n) (replicate 51 (replicate 51 0)) []) ! 0 ! 0 = 1
   \<and> calls_before (\<lambda>n. 96 + n) 1 = 2"
proof -
  let ?rs = "\<lambda>n::nat. 96 + n"
  let ?hs = "replicate 51 (replicate 51 (0::real))"
  have wf: "wf_heights ?hs" by (simp add: wf_heights_def TERRAIN_SIZE_def list_all_iff)
  have i: "(0::nat) \<le> TERRAIN_SIZE" by (simp add: TERRAIN_SIZE_def)
  show ?thesis
    using override_consumes_second_draw [OF wf i i, of ?rs "[]"] wf
    by (simp add: Let_def)
qed

section \<open>Properties of the mesh generators\<close>

lemma for_loop_nonpos: "n \<le> 0 \<Longrightarrow> for_loop n body r = r"
  by (simp add: for_loop_def)

lemma for_loop_skip:
  assumes "\<And>i r. body i r = r"
  shows "for_loop n body r = r"
proof -
  have "fold (\<lambda>i r. if fault r = None then body i r else r) xs r = r" for xs
    by (induction xs) (simp_all add: assms)
  then show ?thesis by (simp add: for_loop_def)
qed

lemma for_loop_invariant:
  assumes "P 0 r"
    and "\<And>i r. i < nat n \<Longrightarrow> P i r \<Longrightarrow> fault r = None \<Longrightarrow> P (Suc i) (body i r)"
    and "\<And>i r. P i r \<Longrightarrow> fault r = None"
  shows "P (nat n) (for_loop n body r)"
proof -
  have "m \<le> nat n \<Longrightarrow> P m (fold (\<lambda>i r. if fault r = None then body i r else r) [0..<m] r)" for m
  proof (induction m)
    case 0
    show ?case using assms(1) by simp
  next
    case (Suc m)
    then show ?case using assms(2,3) by simp
  qed
  then show ?thesis unfolding for_loop_def by simp
qed

lemma for_loop_mesh:
  assumes step: "\<And>i r. i < nat n \<Longrightarrow> fault r = None \<Longrightarrow> list_all Q (emitted r) \<Longrightarrow>
      fault (body i r) = None \<and> length (emitted (body i r)) = length (emitted r) + k
      \<and> list_all Q (emitted (body i r))"
    and r: "fault r = None" "list_all Q (emitted r)"
  shows "fault (for_loop n body r) = None
    \<and> length (emitted (for_loop n body r)) = length (emitted r) + k * nat n
    \<and> list_all Q (emitted (for_loop n body r))"
proof -
  let ?P = "\<lambda>i s. fault s = None \<and> length (emitted s) = length (emitted r) + k * i
      \<and> list_all Q (emitted s)"
  have "?P (nat n) (for_loop n body r)"
  proof (rule for_loop_invariant [where P = ?P])
    show "?P 0 r" using r by simp
  next
    fix i and s :: draw_result
    assume "i < nat n" and "?P i s" and "fault s = None"
    then show "?P (Suc i) (body i s)" using step [of i s] by simp
  next
    fix i :: nat and s :: draw_result
    assume "?P i s"
    then show "fault s = None" by simp
  qed
  then show ?thesis .
qed

lemma emit_Some:
  "emit (Some vs) r = r\<lparr>emitted := emitted r @ vs\<rparr>"
  by (simp add: emit_def)

lemma for_loop_emit:
  assumes quad: "\<And>i. i < nat n \<Longrightarrow> \<exists>vs. q i = Some vs \<and> length vs = k \<and> list_all Q vs"
    and r: "fault r = None" "list_all Q (emitted r)"
  shows "fault (for_loop n (\<lambda>i. emit (q i)) r) = None
    \<and> length (emitted (for_loop n (\<lambda>i. emit (q i)) r)) = length (emitted r) + k * nat n
    \<and> list_all Q (emitted (for_loop n (\<lambda>i. emit (q i)) r))"
proof (rule for_loop_mesh [OF _ r])
  fix i and s :: draw_result
  assume i: "i < nat n" and s: "fault s = None" "list_all Q (emitted s)"
  from quad [OF i] obtain vs where "q i = Some vs" "length vs = k" "list_all Q vs" by blast
  then show "fault (emit (q i) s) = None \<and> length (emitted (emit (q i) s)) = length (emitted s) + k
      \<and> list_all Q (emitted (emit (q i) s))"
    using s by (simp add: emit_Some)
qed

lemma drawBlade_zero_fault:
  "bladeSegments p = 0 \<Longrightarrow> drawBlade p off = \<lparr>emitted = [], fault = Some DivisionByZero\<rparr>"
  by (simp add: drawBlade_def fdiv_def)

lemma drawBlade_negative:
  "bladeSegments p < 0 \<Longrightarrow> drawBlade p off = no_draw"
  by (simp add: drawBlade_def fdiv_def for_loop_nonpos)

text \<open>
  Claim C3, as amended. For every segment count that is zero or negative,
  \<^verbatim>\<open>drawEllipsoid\<close>, \<^verbatim>\<open>drawTorus\<close> (in either of its two counts) and
  \<^verbatim>\<open>drawBlade\<close> emit no vertex; \<^verbatim>\<open>drawEllipsoid\<close> and \<^verbatim>\<open>drawTorus\<close> run into no
  division by zero, and neither does \<^verbatim>\<open>drawBlade\<close> when its count is negative.
\<close>

theorem degenerate_segment_counts:
  assumes "n \<le> 0"
  shows "drawEllipsoid a b c n = \<lparr>emitted = [], fault = None\<rparr>
    \<and> drawTorus R r n m = \<lparr>emitted = [], fault = None\<rparr>
    \<and> drawTorus R r m n = \<lparr>emitted = [], fault = None\<rparr>
    \<and> emitted (drawBlade (p\<lparr>bladeSegments := n\<rparr>) off) = []
    \<and> (n < 0 \<longrightarrow> fault (drawBlade (p\<lparr>bladeSegments := n\<rparr>) off) = None)"
proof (intro conjI impI)
  show "drawEllipsoid a b c n = \<lparr>emitted = [], fault = None\<rparr>"
    using assms by (simp add: drawEllipsoid_def for_loop_nonpos no_draw_def)
  show "drawTorus R r n m = \<lparr>emitted = [], fault = None\<rparr>"
    using assms by (simp add: drawTorus_def for_loop_nonpos no_draw_def)
  have "for_loop n body s = s" for body s
    using assms by (rule for_loop_nonpos)
  then show "drawTorus R r m n = \<lparr>emitted = [], fault = None\<rparr>"
    by (simp add: drawTorus_def for_loop_skip no_draw_def)
  show "emitted (drawBlade (p\<lparr>bladeSegments := n\<rparr>) off) = []"
  proof (cases "n = 0")
    case True
    then show ?thesis by (simp add: drawBlade_zero_fault)
  next
    case False
    with assms have "n < 0" by simp
    then show ?thesis by (simp add: drawBlade_negative no_draw_def)
  qed
  show "fault (drawBlade (p\<lparr>bladeSegments := n\<rparr>) off) = None" if "n < 0"
    using that by (simp add: drawBlade_negative no_draw_def)
qed

theorem degenerate_segment_counts_witness:
  "(-3::int) \<le> 0
   \<and> drawEllipsoid 1 2 3 (-3) = \<lparr>emitted = [], fault = None\<rparr>
   \<and> drawTorus 10 2 (-3) 16 = \<lparr>emitted = [], fault = None\<rparr>
   \<and> drawTorus 10 2 16 (-3) = \<lparr>emitted = [], fault = None\<rparr>
   \<and> emitted (drawBlade (turbineParams\<lparr>bladeSegments := -3\<rparr>) 0) = []
   \<and> fault (drawBlade (turbineParams\<lparr>bladeSegments := -3\<rparr>) 0) = None"
proof -
  have pre: "(-3::int) \<le> 0" by simp
  show ?thesis
    using degenerate_segment_counts [OF pre, of 1 2 3 10 2 16 turbineParams 0] by simp
qed

text \<open>
  Claim C3 as stated fails for \<^verbatim>\<open>drawBlade\<close> at the segment count zero: the division
  \<^verbatim>\<open>bladeLength / segments\<close> in front of the loop (line 628) has the divisor zero.
\<close>

theorem drawBlade_divides_by_zero:
  "fault (drawBlade (turbineParams\<lparr>bladeSegments := 0\<rparr>) 0) = Some DivisionByZero"
  by (simp add: drawBlade_zero_fault)

lemma sphere_point:
  assumes "0 < r"
  shows "sqrt ((r * cos u * cos w)\<^sup>2 + (r * sin u)\<^sup>2 + (r * cos u * sin w)\<^sup>2) = r"
proof -
  have poly: "(r * a * c)\<^sup>2 + (r * b)\<^sup>2 + (r * a * d)\<^sup>2 = r\<^sup>2 * (a\<^sup>2 * (c\<^sup>2 + d\<^sup>2) + b\<^sup>2)"
    for a b c d :: real
    by (simp add: power2_eq_square algebra_simps)
  have "(r * cos u * cos w)\<^sup>2 + (r * sin u)\<^sup>2 + (r * cos u * sin w)\<^sup>2
      = r\<^sup>2 * ((cos u)\<^sup>2 * ((cos w)\<^sup>2 + (sin w)\<^sup>2) + (sin u)\<^sup>2)"
    by (rule poly)
  also have "\<dots> = r\<^sup>2" by simp
  finally show ?thesis using assms by simp
qed

lemma ellipsoid_vertex_sphere:
  assumes "0 < r"
  shows "ellipsoid_vertex r r r u w st
    = Some \<lparr>pos = (r * cos u * cos w, r * sin u, r * cos u * sin w),
            nrm = (cos u * cos w, sin u, cos u * sin w), tex = st\<rparr>"
  using assms by (simp add: ellipsoid_vertex_def fdiv_def Let_def)

lemma sphere_vertex_param:
  assumes "0 < r"
  shows "sphere_vertex r \<lparr>pos = (r * cos u * cos w, r * sin u, r * cos u * sin w),
            nrm = (cos u * cos w, sin u, cos u * sin w), tex = st\<rparr>"
  unfolding sphere_vertex_def using assms sphere_point [OF assms, of u w] by auto

lemma ellipsoid_quad_sphere:
  assumes "0 < r" and "0 < n"
  shows "\<exists>vs. ellipsoid_quad r r r n i j = Some vs \<and> length vs = 4
    \<and> list_all (sphere_vertex r) vs"
  using assms
  by (simp add: ellipsoid_quad_def fdiv_def Let_def ellipsoid_vertex_sphere sphere_vertex_param)

lemma drawEllipsoid_sphere:
  assumes "0 < r" and "0 < n"
  shows "fault (drawEllipsoid r r r n) = None
    \<and> length (emitted (drawEllipsoid r r r n)) = 4 * nat n * nat n
    \<and> list_all (sphere_vertex r) (emitted (drawEllipsoid r r r n))"
proof -
  have inner: "fault (for_loop n (\<lambda>j. emit (ellipsoid_quad r r r n i j)) s) = None
    \<and> length (emitted (for_loop n (\<lambda>j. emit (ellipsoid_quad r r r n i j)) s))
        = length (emitted s) + 4 * nat n
    \<and> list_all (sphere_vertex r) (emitted (for_loop n (\<lambda>j. emit (ellipsoid_quad r r r n i j)) s))"
    if "fault s = None" "list_all (sphere_vertex r) (emitted s)" for i s
  proof (rule for_loop_emit)
    show "\<exists>vs. ellipsoid_quad r r r n i j = Some vs \<and> length vs = 4
        \<and> list_all (sphere_vertex r) vs" for j
      by (rule ellipsoid_quad_sphere [OF assms])
  qed (use that in simp_all)
  have "fault (for_loop n (\<lambda>i. for_loop n (\<lambda>j. emit (ellipsoid_quad r r r n i j))) no_draw) = None
    \<and> length (emitted (for_loop n (\<lambda>i. for_loop n (\<lambda>j. emit (ellipsoid_quad r r r n i j))) no_draw))
        = length (emitted no_draw) + 4 * nat n * nat n
    \<and> list_all (sphere_vertex r)
        (emitted (for_loop n (\<lambda>i. for_loop n (\<lambda>j. emit (ellipsoid_quad r r r n i j))) no_draw))"
  proof (rule for_loop_mesh)
    fix i and s :: draw_result
    assume "fault s = None" and "list_all (sphere_vertex r) (emitted s)"
    then show "fault (for_loop n (\<lambda>j. emit (ellipsoid_quad r r r n i j)) s) = None
      \<and> length (emitted (for_loop n (\<lambda>j. emit (ellipsoid_quad r r r n i j)) s))
          = length (emitted s) + 4 * nat n
      \<and> list_all (sphere_vertex r)
          (emitted (for_loop n (\<lambda>j. emit (ellipsoid_quad r r r n i j)) s))"
      by (rule inner)
  qed (simp_all add: no_draw_def)
  then show ?thesis by (simp add: drawEllipsoid_def no_draw_def)
qed

text \<open>
  Claim C8. For every \<open>r > 0\<close> and every positive segment count \<open>n\<close>,
  \<^verbatim>\<open>drawEllipsoid\<close> with the three semi-axes equal to \<open>r\<close> runs into no fault and
  emits \<open>4 * n * n\<close> vertices, each at the Euclidean distance \<open>r\<close> from the origin, of
  the form \<open>(r * cos u * cos w, r * sin u, r * cos u * sin w)\<close>, with the normal equal
  to the position divided by \<open>r\<close> in each component.
\<close>

theorem ellipsoid_with_equal_axes_is_sphere:
  assumes "0 < r" and "0 < n"
  shows "fault (drawEllipsoid r r r n) = None
    \<and> length (emitted (drawEllipsoid r r r n)) = 4 * nat n * nat n
    \<and> (\<forall>v \<in> set (emitted (drawEllipsoid r r r n)).
          case pos v of (x, y, z) \<Rightarrow>
            sqrt (x\<^sup>2 + y\<^sup>2 + z\<^sup>2) = r \<and> nrm v = (x / r, y / r, z / r)
            \<and> (\<exists>u w. pos v = (r * cos u * cos w, r * sin u, r * cos u * sin w)))"
  using drawEllipsoid_sphere [OF assms]
  by (simp add: list_all_iff sphere_vertex_def)

theorem ellipsoid_with_equal_axes_is_sphere_witness:
  "(0::real) < 2 \<and> (0::int) < 1
   \<and> fault (drawEllipsoid 2 2 2 1) = None
   \<and> length (emitted (drawEllipsoid 2 2 2 1)) = 4
   \<and> pos (hd (emitted (drawEllipsoid 2 2 2 1))) = (2, 0, 0)
   \<and> nrm (hd (emitted (drawEllipsoid 2 2 2 1))) = (1, 0, 0)"
proof -
  have r: "(0::real) < 2" and n: "(0::int) < 1" by simp_all
  have q: "ellipsoid_quad 2 2 2 1 0 0 \<noteq> None"
    by (simp add: ellipsoid_quad_def ellipsoid_vertex_def fdiv_def Let_def)
  have first: "pos (hd (emitted (drawEllipsoid 2 2 2 1))) = (2, 0, 0)"
    by (simp add: drawEllipsoid_def for_loop_def no_draw_def emit_def ellipsoid_quad_def
        ellipsoid_vertex_def fdiv_def Let_def)
  have mem: "hd (emitted (drawEllipsoid 2 2 2 1)) \<in> set (emitted (drawEllipsoid 2 2 2 1))"
    using ellipsoid_with_equal_axes_is_sphere [OF r n] by (intro hd_in_set) auto
  show ?thesis
    using ellipsoid_with_equal_axes_is_sphere [OF r n] first mem by auto
qed


lemma torus_point:
  assumes "0 \<le> r" and "r \<le> R"
  shows "tube_vertex R r (torus_vertex R r u w)"
proof -
  let ?rho = "R + r * cos w"
  let ?z = "r * sin w"
  have rho: "0 \<le> ?rho"
  proof -
    have "- 1 \<le> cos w" by simp
    then have "- r \<le> r * cos w" using assms(1) by (metis mult.right_neutral mult_minus_right mult_left_mono)
    then show ?thesis using assms(2) by linarith
  qed
  have tube: "(?rho - R)\<^sup>2 + ?z\<^sup>2 = r\<^sup>2"
  proof -
    have poly: "(R + r * c - R)\<^sup>2 + (r * d)\<^sup>2 = r\<^sup>2 * (c\<^sup>2 + d\<^sup>2)" for c d :: real
      by (simp add: power2_eq_square algebra_simps)
    have "(?rho - R)\<^sup>2 + ?z\<^sup>2 = r\<^sup>2 * ((cos w)\<^sup>2 + (sin w)\<^sup>2)"
      by (rule poly)
    then show ?thesis by simp
  qed
  have sq: "(?rho * cos u - R * cos t)\<^sup>2 + (?rho * sin u - R * sin t)\<^sup>2 + (?z - 0)\<^sup>2
      = r\<^sup>2 + 2 * ?rho * R * (1 - cos (u - t))" for t
  proof -
    have poly: "(p * a - R * c)\<^sup>2 + (p * b - R * d)\<^sup>2
        = p\<^sup>2 * (a\<^sup>2 + b\<^sup>2) + R\<^sup>2 * (c\<^sup>2 + d\<^sup>2) - 2 * p * R * (a * c + b * d)"
      for p a b c d :: real
      by (simp add: power2_eq_square algebra_simps)
    have "(?rho * cos u - R * cos t)\<^sup>2 + (?rho * sin u - R * sin t)\<^sup>2
        = ?rho\<^sup>2 * ((cos u)\<^sup>2 + (sin u)\<^sup>2) + R\<^sup>2 * ((cos t)\<^sup>2 + (sin t)\<^sup>2)
          - 2 * ?rho * R * (cos u * cos t + sin u * sin t)"
      by (rule poly)
    also have "\<dots> = ?rho\<^sup>2 + R\<^sup>2 - 2 * ?rho * R * cos (u - t)"
      by (simp add: cos_diff)
    also have "\<dots> = (?rho - R)\<^sup>2 + 2 * ?rho * R * (1 - cos (u - t))"
      by (simp add: power2_eq_square algebra_simps)
    finally show ?thesis using tube by simp
  qed
  have d: "distance (pos (torus_vertex R r u w)) (ring_point R t)
      = sqrt (r\<^sup>2 + 2 * ?rho * R * (1 - cos (u - t)))" for t
    unfolding distance_def ring_point_def torus_vertex_def using sq [of t] by simp
  have R: "0 \<le> R" using assms by simp
  have "distance (pos (torus_vertex R r u w)) (ring_point R u) = r"
    unfolding d using assms(1) by simp
  then have ex: "\<exists>t. distance (pos (torus_vertex R r u w)) (ring_point R t) = r" ..
  have all: "r \<le> distance (pos (torus_vertex R r u w)) (ring_point R t)" for t
  proof -
    have "0 \<le> 1 - cos (u - t)" by simp
    then have "0 \<le> 2 * ?rho * R * (1 - cos (u - t))" using rho R by simp
    then have "r\<^sup>2 \<le> r\<^sup>2 + 2 * ?rho * R * (1 - cos (u - t))" by simp
    then have "sqrt (r\<^sup>2) \<le> sqrt (r\<^sup>2 + 2 * ?rho * R * (1 - cos (u - t)))"
      by (rule real_sqrt_le_mono)
    then show ?thesis unfolding d using assms(1) by simp
  qed
  have poly3: "(p * a)\<^sup>2 + (p * b)\<^sup>2 = p\<^sup>2 * (a\<^sup>2 + b\<^sup>2)" for p a b :: real
    by (simp add: power2_eq_square algebra_simps)
  have "(?rho * cos u)\<^sup>2 + (?rho * sin u)\<^sup>2 = ?rho\<^sup>2 * ((cos u)\<^sup>2 + (sin u)\<^sup>2)"
    by (rule poly3)
  then have "sqrt ((?rho * cos u)\<^sup>2 + (?rho * sin u)\<^sup>2) = ?rho"
    using rho by simp
  then have closed: "sqrt ((sqrt ((?rho * cos u)\<^sup>2 + (?rho * sin u)\<^sup>2) - R)\<^sup>2 + ?z\<^sup>2) = r"
    using tube assms(1) by simp
  show ?thesis
    unfolding tube_vertex_def using ex all closed by (simp add: torus_vertex_def)
qed

lemma torus_quad_tube:
  assumes "0 \<le> r" and "r \<le> R" and "0 < M" and "0 < m"
  shows "\<exists>vs. torus_quad R r M m i j = Some vs \<and> length vs = 4
    \<and> list_all (tube_vertex R r) vs"
  using assms(3,4) torus_point [OF assms(1,2)]
  by (simp add: torus_quad_def fdiv_def Let_def)

lemma drawTorus_tube:
  assumes "0 \<le> r" and "r \<le> R" and "0 < M" and "0 < m"
  shows "fault (drawTorus R r M m) = None
    \<and> length (emitted (drawTorus R r M m)) = 4 * nat m * nat M
    \<and> list_all (tube_vertex R r) (emitted (drawTorus R r M m))"
proof -
  have inner: "fault (for_loop m (\<lambda>j. emit (torus_quad R r M m i j)) s) = None
    \<and> length (emitted (for_loop m (\<lambda>j. emit (torus_quad R r M m i j)) s))
        = length (emitted s) + 4 * nat m
    \<and> list_all (tube_vertex R r) (emitted (for_loop m (\<lambda>j. emit (torus_quad R r M m i j)) s))"
    if "fault s = None" "list_all (tube_vertex R r) (emitted s)" for i s
  proof (rule for_loop_emit)
    show "\<exists>vs. torus_quad R r M m i j = Some vs \<and> length vs = 4
        \<and> list_all (tube_vertex R r) vs" for j
      by (rule torus_quad_tube [OF assms])
  qed (use that in simp_all)
  have "fault (for_loop M (\<lambda>i. for_loop m (\<lambda>j. emit (torus_quad R r M m i j))) no_draw) = None
    \<and> length (emitted (for_loop M (\<lambda>i. for_loop m (\<lambda>j. emit (torus_quad R r M m i j))) no_draw))
        = length (emitted no_draw) + 4 * nat m * nat M
    \<and> list_all (tube_vertex R r)
        (emitted (for_loop M (\<lambda>i. for_loop m (\<lambda>j. emit (torus_quad R r M m i j))) no_draw))"
  proof (rule for_loop_mesh)
    fix i and s :: draw_result
    assume "fault s = None" and "list_all (tube_vertex R r) (emitted s)"
    then show "fault (for_loop m (\<lambda>j. emit (torus_quad R r M m i j)) s) = None
      \<and> length (emitted (for_loop m (\<lambda>j. emit (torus_quad R r M m i j)) s))
          = length (emitted s) + 4 * nat m
      \<and> list_all (tube_vertex R r)
          (emitted (for_loop m (\<lambda>j. emit (torus_quad R r M m i j)) s))"
      by (rule inner)
  qed (simp_all add: no_draw_def)
  then show ?thesis by (simp add: drawTorus_def no_draw_def)
qed

text \<open>
  Claim C9. For the major radius 10, the minor radius 2 and positive segment counts,
  \<^verbatim>\<open>drawTorus\<close> runs into no fault and every vertex it emits is at the distance 2
  from the central ring: some point of the ring is at the distance 2, no point of the
  ring is nearer, and the closed form of that distance,
  \<open>sqrt ((sqrt (x\<^sup>2 + y\<^sup>2) - 10)\<^sup>2 + z\<^sup>2)\<close>, is 2.
\<close>

theorem torus_vertices_at_minor_radius_from_ring:
  assumes "0 < M" and "0 < m"
  shows "fault (drawTorus 10 2 M m) = None
    \<and> length (emitted (drawTorus 10 2 M m)) = 4 * nat M * nat m
    \<and> (\<forall>v \<in> set (emitted (drawTorus 10 2 M m)).
          (\<exists>t. distance (pos v) (ring_point 10 t) = 2)
          \<and> (\<forall>t. 2 \<le> distance (pos v) (ring_point 10 t))
          \<and> (case pos v of (x, y, z) \<Rightarrow> sqrt ((sqrt (x\<^sup>2 + y\<^sup>2) - 10)\<^sup>2 + z\<^sup>2) = 2))"
proof -
  have "(0::real) \<le> 2" and "(2::real) \<le> 10" by simp_all
  from drawTorus_tube [OF this assms] show ?thesis
    by (simp add: list_all_iff tube_vertex_def mult.commute)
qed

theorem torus_vertices_at_minor_radius_from_ring_witness:
  "(0::int) < 1
   \<and> fault (drawTorus 10 2 1 1) = None
   \<and> length (emitted (drawTorus 10 2 1 1)) = 4
   \<and> pos (hd (emitted (drawTorus 10 2 1 1))) = (12, 0, 0)
   \<and> sqrt ((sqrt (12\<^sup>2 + 0\<^sup>2) - 10)\<^sup>2 + 0\<^sup>2) = (2::real)"
proof -
  have n: "(0::int) < 1" by simp
  have first: "pos (hd (emitted (drawTorus 10 2 1 1))) = (12, 0, 0)"
    by (simp add: drawTorus_def for_loop_def no_draw_def emit_def torus_quad_def
        torus_vertex_def fdiv_def Let_def)
  have mem: "hd (emitted (drawTorus 10 2 1 1)) \<in> set (emitted (drawTorus 10 2 1 1))"
    using torus_vertices_at_minor_radius_from_ring [OF n n] by (intro hd_in_set) auto
  from torus_vertices_at_minor_radius_from_ring [OF n n]
  have all: "\<forall>v \<in> set (emitted (drawTorus 10 2 1 1)).
      case pos v of (x, y, z) \<Rightarrow> sqrt ((sqrt (x\<^sup>2 + y\<^sup>2) - 10)\<^sup>2 + z\<^sup>2) = 2"
    by auto
  from bspec [OF all mem]
  have "case pos (hd (emitted (drawTorus 10 2 1 1))) of
      (x, y, z) \<Rightarrow> sqrt ((sqrt (x\<^sup>2 + y\<^sup>2) - 10)\<^sup>2 + z\<^sup>2) = 2" .
  then have "sqrt ((sqrt (12\<^sup>2 + 0\<^sup>2) - 10)\<^sup>2 + 0\<^sup>2) = (2::real)"
    unfolding first by simp
  then show ?thesis
    using torus_vertices_at_minor_radius_from_ring [OF n n] first by simp
qed

section \<open>Where the foundation and the tower are drawn\<close>

lemma rotation_x_minus_90: "rotation (- 90) (1, 0, 0) (x, y, z) = (x, z, - y)"
proof -
  have a: "- 90 * pi / 180 = - (pi / 2)" by simp
  show ?thesis
    unfolding rotation_def Let_def prod.case a by simp
qed

lemma seq_Nil: "seq [] st = st"
  by (simp add: seq_def)

lemma seq_Cons: "seq (c # cs) st = seq cs (if gl_fault st = None then c st else st)"
  by (simp add: seq_def)

lemma two_rings: "set [0..<nat 1 + 1] = {0, 1}"
  by auto

lemma ycoord_cylinder_points:
  "ycoord ` (\<lambda>p. translation (0, ty, 0) (rotation (- 90) (1, 0, 0) p)) ` set (cylinder_points b t h n 1)
     = {ty, h + ty}"
proof -
  let ?F = "\<lambda>p. translation (0, ty, 0) (rotation (- 90) (1, 0, 0) p)"
  let ?P = "\<lambda>s k. (let rad = b + (t - b) * real s / real_of_int 1;
              ang = 2 * pi * real k / real_of_int n
          in (rad * sin ang, rad * cos ang, h * real s / real_of_int 1))"
  have ring: "ycoord ` ?F ` (\<lambda>k. ?P s k) ` set [0..<nat n + 1] = {h * real s + ty}" for s
    by (auto simp: ycoord_def image_iff Let_def translation_def rotation_x_minus_90)
  have "ycoord ` ?F ` set (cylinder_points b t h n 1)
      = (\<Union>s \<in> set [0..<nat 1 + 1]. ycoord ` ?F ` (\<lambda>k. ?P s k) ` set [0..<nat n + 1])"
    unfolding cylinder_points_def by (simp only: set_concat set_map image_Union image_image) 
  also have "\<dots> = (\<Union>s \<in> {0, 1}. {h * real s + ty})"
    unfolding ring two_rings ..
  also have "\<dots> = {ty, h + ty}" by auto
  finally show ?thesis .
qed

lemma ycoord_disk_points:
  "ycoord ` (\<lambda>p. translation (0, ty, 0) (rotation (- 90) (1, 0, 0) (translation (0, 0, tz) p)))
     ` set (disk_points inner outer n 1) = {tz + ty}"
proof -
  let ?F = "\<lambda>p. translation (0, ty, 0) (rotation (- 90) (1, 0, 0) (translation (0, 0, tz) p))"
  let ?P = "\<lambda>l k. (let rad = inner + (outer - inner) * real l / real_of_int 1;
              ang = 2 * pi * real k / real_of_int n
          in (rad * sin ang, rad * cos ang, 0::real))"
  have ring: "ycoord ` ?F ` (\<lambda>k. ?P l k) ` set [0..<nat n + 1] = {tz + ty}" for l
    by (auto simp: ycoord_def image_iff Let_def translation_def rotation_x_minus_90)
  have "ycoord ` ?F ` set (disk_points inner outer n 1)
      = (\<Union>l \<in> set [0..<nat 1 + 1]. ycoord ` ?F ` (\<lambda>k. ?P l k) ` set [0..<nat n + 1])"
    unfolding disk_points_def by (simp only: set_concat set_map image_Union image_image)
  also have "\<dots> = (\<Union>l \<in> {0, 1::nat}. {tz + ty})"
    unfolding ring two_rings ..
  also have "\<dots> = {tz + ty}" by auto
  finally show ?thesis .
qed

lemma translation_zero: "translation (0, 0, 0) p = p"
  by (cases p) (simp add: translation_def)

lemma foundation_cylinder_drawn:
  "drawn (seq [glPushMatrix,
               glTranslatef 0.0 (- foundationHeight turbineParams * 0.5) 0.0,
               foundation_cylinder turbineParams] gl_init)
   = map (\<lambda>p. translation (0, - 1, 0) (rotation (- 90) (1, 0, 0) p)) (cylinder_points 8 8 2 32 1)
     @ map (\<lambda>p. translation (0, - 1, 0) (rotation (- 90) (1, 0, 0) (translation (0, 0, 0) p)))
         (disk_points 0 8 32 1)
     @ map (\<lambda>p. translation (0, - 1, 0) (rotation (- 90) (1, 0, 0) (translation (0, 0, 2) p)))
         (disk_points 0 8 32 1)"
  by (simp add: seq_Cons seq_Nil gl_init_def glPushMatrix_def glTranslatef_def glRotatef_def
      glMultMatrix_def glPopMatrix_def glVertices_def foundation_cylinder_def
      drawSolidCylinder_def gluCylinder_def gluDisk_def turbineParams_def o_def translation_zero)

lemma tower_block_drawn:
  "drawn (tower_block turbineParams gl_init)
   = map (\<lambda>p. translation (0, 2, 0) (rotation (- 90) (1, 0, 0) p)) (cylinder_points 3.5 1.8 80 24 1)
     @ map (\<lambda>p. translation (0, 2, 0) (rotation (- 90) (1, 0, 0) (translation (0, 0, 0) p)))
         (disk_points 0 3.5 24 1)
     @ map (\<lambda>p. translation (0, 2, 0) (rotation (- 90) (1, 0, 0) (translation (0, 0, 80) p)))
         (disk_points 0 1.8 24 1)"
  by (simp add: seq_Cons seq_Nil gl_init_def glPushMatrix_def glTranslatef_def glRotatef_def
      glMultMatrix_def glPopMatrix_def glVertices_def tower_block_def drawTurbineTower_def
      drawSolidCylinder_def gluCylinder_def gluDisk_def turbineParams_def o_def translation_zero)

lemma foundation_ring_no_fault: "fault (drawTorus (8 * 1.1) 0.5 24 16) = None"
proof -
  have "(0::real) \<le> 0.5" and "(0.5::real) \<le> 8 * 1.1" and "(0::int) < 24" and "(0::int) < 16"
    by simp_all
  from drawTorus_tube [OF this] show ?thesis by simp
qed

lemma drawWindTurbine_drawn:
  "drawn (drawWindTurbine turbineParams yaw (\<lambda>st. st) gl_init)
   = drawn (seq [glPushMatrix,
                 glTranslatef 0.0 (- foundationHeight turbineParams * 0.5) 0.0,
                 foundation_cylinder turbineParams] gl_init)
     @ map (\<lambda>p. translation (0, - 1, 0) (translation (0, 2 * 0.8, 0) (rotation (- 90) (1, 0, 0) p)))
         (map pos (emitted (drawTorus (8 * 1.1) 0.5 24 16)))
     @ drawn (tower_block turbineParams gl_init)"
  unfolding foundation_cylinder_drawn tower_block_drawn
  using foundation_ring_no_fault
  by (simp add: seq_Cons seq_Nil gl_init_def glPushMatrix_def glTranslatef_def glRotatef_def
      glMultMatrix_def glPopMatrix_def glVertices_def tower_block_def drawTurbineTower_def
      drawWindTurbine_def drawFoundation_def foundation_cylinder_def foundation_ring_def
      draw_mesh_def drawSolidCylinder_def gluCylinder_def gluDisk_def turbineParams_def o_def
      translation_zero)

text \<open>
  Claim C2, evaluated on the code for the geometry \<^verbatim>\<open>turbineParams\<close> of the program
  (\<^verbatim>\<open>foundationHeight\<close> = 2.0, \<^verbatim>\<open>height\<close> = 80.0), in the frame of the turbine.
  What \<^verbatim>\<open>drawWindTurbine\<close> draws, the nacelle and the rotor left out, is the
  foundation cylinder (side and two caps, drawn by the first three statements of
  \<^verbatim>\<open>drawFoundation\<close>), then the ring of the foundation, then the tower. The vertices
  of the foundation cylinder have the heights -1 and 1: the cylinder is centred on
  \<open>y = 0\<close> and its top cap is at \<open>y = 1\<close>, half the foundation height, not at \<open>y = 0\<close>.
  The vertices of the tower have the heights 2 and 82: the tower starts at
  \<open>y = foundationHeight\<close> and rises along \<open>y\<close>.
\<close>

theorem foundation_cylinder_centred_on_ground:
  "drawn (drawWindTurbine turbineParams yaw (\<lambda>st. st) gl_init)
     = drawn (seq [glPushMatrix,
                   glTranslatef 0.0 (- foundationHeight turbineParams * 0.5) 0.0,
                   foundation_cylinder turbineParams] gl_init)
       @ map (\<lambda>p. translation (0, - 1, 0)
                    (translation (0, 2 * 0.8, 0) (rotation (- 90) (1, 0, 0) p)))
           (map pos (emitted (drawTorus (8 * 1.1) 0.5 24 16)))
       @ drawn (tower_block turbineParams gl_init)
   \<and> ycoord ` set (drawn (seq [glPushMatrix,
                               glTranslatef 0.0 (- foundationHeight turbineParams * 0.5) 0.0,
                               foundation_cylinder turbineParams] gl_init)) = {- 1, 1}
   \<and> ycoord ` set (drawn (tower_block turbineParams gl_init)) = {2, 82}"
proof (intro conjI)
  show "drawn (drawWindTurbine turbineParams yaw (\<lambda>st. st) gl_init)
     = drawn (seq [glPushMatrix,
                   glTranslatef 0.0 (- foundationHeight turbineParams * 0.5) 0.0,
                   foundation_cylinder turbineParams] gl_init)
       @ map (\<lambda>p. translation (0, - 1, 0)
                    (translation (0, 2 * 0.8, 0) (rotation (- 90) (1, 0, 0) p)))
           (map pos (emitted (drawTorus (8 * 1.1) 0.5 24 16)))
       @ drawn (tower_block turbineParams gl_init)"
    by (rule drawWindTurbine_drawn)
  show "ycoord ` set (drawn (seq [glPushMatrix,
                             glTranslatef 0.0 (- foundationHeight turbineParams * 0.5) 0.0,
                             foundation_cylinder turbineParams] gl_init)) = {- 1, 1}"
    unfolding foundation_cylinder_drawn set_append set_map image_Un
    using ycoord_cylinder_points [of "- 1" 8 8 2 32]
      ycoord_disk_points [of "- 1" 0 0 8 32] ycoord_disk_points [of "- 1" 2 0 8 32]
    by auto
  show "ycoord ` set (drawn (tower_block turbineParams gl_init)) = {2, 82}"
    unfolding tower_block_drawn set_append set_map image_Un
    using ycoord_cylinder_points [of 2 "3.5" "1.8" 80 24]
      ycoord_disk_points [of 2 0 0 "3.5" 24] ycoord_disk_points [of 2 80 0 "1.8" 24]
    by auto
qed

end
